theory Spec2Isabelle
  imports Main
begin

section \<open>JavaScript strings and numbers\<close>

text \<open>
  Strings are lists of characters; every string the release script builds itself is
  ASCII. \<open>isDigit\<close> is the regular expression class \<open>[0-9]\<close> (JavaScript's \<open>\d\<close>),
  \<open>isIdChar\<close> is \<open>[0-9A-Za-z-]\<close>.
\<close>

definition isDigit :: "char \<Rightarrow> bool" where
  "isDigit c = (c \<in> set ''0123456789'')"

definition isIdChar :: "char \<Rightarrow> bool" where
  "isIdChar c =
     (c \<in> set ''0123456789abcdefghijklmnopqrstuvwxyzABCDEFGHIJKLMNOPQRSTUVWXYZ-'')"

text \<open>\<open>String(n)\<close> for a non-negative integer below \<open>10^21\<close>: its decimal digits.\<close>

fun show_nat :: "nat \<Rightarrow> string" where
  "show_nat n =
     (if n < 10 then [''0123456789'' ! n]
      else show_nat (n div 10) @ [''0123456789'' ! (n mod 10)])"

declare show_nat.simps [simp del]

text \<open>\<open>+s\<close> for a string of decimal digits, read exactly (see \<open>to_double\<close> for rounding).\<close>

definition digit_val :: "char \<Rightarrow> nat" where
  "digit_val c = of_char c - 48"

definition read_nat :: "string \<Rightarrow> nat" where
  "read_nat s = foldl (\<lambda>acc c. 10 * acc + digit_val c) 0 s"

text \<open>
  A natural number rounded to the nearest IEEE double (ties to even): what \<open>+s\<close>
  yields for a digit string too long to be held exactly. Below \<open>2^53\<close> nothing is lost.
\<close>

fun bitlen :: "nat \<Rightarrow> nat" where
  "bitlen n = (if n = 0 then 0 else Suc (bitlen (n div 2)))"

declare bitlen.simps [simp del]

definition to_double :: "nat \<Rightarrow> nat" where
  "to_double n =
     (if n < 2 ^ 53 then n
      else
        (let e = bitlen n - 53; q = n div 2 ^ e; r = n mod 2 ^ e; half = 2 ^ (e - 1)
         in if half < r \<or> (r = half \<and> odd q) then (q + 1) * 2 ^ e else q * 2 ^ e))"

text \<open>\<open>String.prototype.split\<close> on a one-character separator.\<close>

fun split_on :: "char \<Rightarrow> string \<Rightarrow> string list" where
  "split_on d [] = [[]]"
| "split_on d (c # cs) =
     (if c = d then [] # split_on d cs
      else (case split_on d cs of [] \<Rightarrow> [[c]] | p # ps \<Rightarrow> (c # p) # ps))"

text \<open>\<open>Array.prototype.join\<close> on strings.\<close>

fun join :: "string \<Rightarrow> string list \<Rightarrow> string" where
  "join sep [] = []"
| "join sep [x] = x"
| "join sep (x # y # ys) = x @ sep @ join sep (y # ys)"

text \<open>\<open>s.includes(t)\<close>, and \<open>s.match(/t/)\<close> for a pattern \<open>t\<close> of literal characters.\<close>

fun starts_with :: "string \<Rightarrow> string \<Rightarrow> bool" where
  "starts_with s [] = True"
| "starts_with [] (p # ps) = False"
| "starts_with (c # cs) (p # ps) = (c = p \<and> starts_with cs ps)"

fun str_includes :: "string \<Rightarrow> string \<Rightarrow> bool" where
  "str_includes [] t = (t = [])"
| "str_includes (c # cs) t = (starts_with (c # cs) t \<or> str_includes cs t)"

text \<open>\<open>a < b\<close> on strings: lexicographic on the character codes.\<close>

fun str_less :: "string \<Rightarrow> string \<Rightarrow> bool" where
  "str_less [] [] = False"
| "str_less [] (b # bs) = True"
| "str_less (a # as) [] = False"
| "str_less (a # as) (b # bs) =
     (if a = b then str_less as bs else (of_char a :: nat) < of_char b)"

text \<open>\<open>String.prototype.trim\<close>, for the ASCII white space characters.\<close>

definition isSpace :: "char \<Rightarrow> bool" where
  "isSpace c = (c \<in> {CHR '' '', CHR 0x09, CHR 0x0A, CHR 0x0B, CHR 0x0C, CHR 0x0D})"

definition trim :: "string \<Rightarrow> string" where
  "trim s = rev (dropWhile isSpace (rev (dropWhile isSpace s)))"

section \<open>The semver package\<close>

text \<open>
  Modelled from the spec: the script resolves candidates "via standard semver increment
  rules using a fixed prerelease identifier" and checks that the target is "a
  syntactically valid semantic version". Both are calls into the third-party \<open>semver\<close>
  package (\<open>semver.inc\<close>, \<open>semver.valid\<close>), which is not part of the repository. The
  definitions of this section follow that package's \<open>SemVer\<close> class in strict mode:
  its constructor (the parser), \<open>format\<close>, \<open>inc\<close> and \<open>compare\<close>.
\<close>

definition MAX_SAFE_INTEGER :: nat where
  "MAX_SAFE_INTEGER = 9007199254740991"

definition MAX_LENGTH :: nat where
  "MAX_LENGTH = 256"

text \<open>
  A prerelease identifier is held as a number when it is all digits and below
  \<open>MAX_SAFE_INTEGER\<close>, as a string otherwise.
\<close>

datatype ident = Num nat | Str string

record SemVer =
  major :: nat
  minor :: nat
  patch :: nat
  prerelease :: "ident list"
  build :: "string list"

text \<open>The seven \<open>ReleaseType\<close> values the script offers, in the order of \<open>versionIncrements\<close>.\<close>

datatype ReleaseType = Patch | Minor | Major | Prepatch | Preminor | Premajor | Prerelease

definition versionIncrements :: "ReleaseType list" where
  "versionIncrements = [Patch, Minor, Major, Prepatch, Preminor, Premajor, Prerelease]"

fun release_name :: "ReleaseType \<Rightarrow> string" where
  "release_name Patch = ''patch''"
| "release_name Minor = ''minor''"
| "release_name Major = ''major''"
| "release_name Prepatch = ''prepatch''"
| "release_name Preminor = ''preminor''"
| "release_name Premajor = ''premajor''"
| "release_name Prerelease = ''prerelease''"

subsection \<open>Parsing: the constructor of SemVer\<close>

text \<open>
  The strict grammar: an optional \<open>v\<close>, three numeric identifiers \<open>0|[1-9]\d*\<close> joined by
  dots, an optional \<open>-\<close> with dot-separated prerelease identifiers (numeric, or
  \<open>\d*[a-zA-Z-][a-zA-Z0-9-]*\<close>), an optional \<open>+\<close> with dot-separated build identifiers
  \<open>[0-9a-zA-Z-]+\<close>. None of the identifiers can hold \<open>-\<close> before the main version ends
  or \<open>+\<close> before the prerelease ends, so the three parts are cut at the first \<open>-\<close> or
  \<open>+\<close> and at the first \<open>+\<close>.
\<close>

definition is_numeric_id :: "string \<Rightarrow> bool" where
  "is_numeric_id s =
     (case s of [] \<Rightarrow> False
      | c # cs \<Rightarrow> list_all isDigit (c # cs) \<and> (if c = CHR ''0'' then cs = [] else True))"

definition is_prerelease_id :: "string \<Rightarrow> bool" where
  "is_prerelease_id s =
     (is_numeric_id s \<or> (s \<noteq> [] \<and> list_all isIdChar s \<and> \<not> list_all isDigit s))"

definition is_build_id :: "string \<Rightarrow> bool" where
  "is_build_id s = (s \<noteq> [] \<and> list_all isIdChar s)"

definition mk_ident :: "string \<Rightarrow> ident" where
  "mk_ident s =
     (if list_all isDigit s \<and> read_nat s < MAX_SAFE_INTEGER then Num (read_nat s) else Str s)"

definition parse_main :: "string \<Rightarrow> (nat \<times> nat \<times> nat) option" where
  "parse_main s =
     (case split_on CHR ''.'' s of
        [a, b, c] \<Rightarrow>
          if is_numeric_id a \<and> is_numeric_id b \<and> is_numeric_id c
             \<and> read_nat a \<le> MAX_SAFE_INTEGER \<and> read_nat b \<le> MAX_SAFE_INTEGER
             \<and> read_nat c \<le> MAX_SAFE_INTEGER
          then Some (read_nat a, read_nat b, read_nat c) else None
      | _ \<Rightarrow> None)"

definition parse_prerelease :: "string \<Rightarrow> ident list option" where
  "parse_prerelease s =
     (if list_all is_prerelease_id (split_on CHR ''.'' s)
      then Some (map mk_ident (split_on CHR ''.'' s)) else None)"

definition parse_build :: "string \<Rightarrow> string list option" where
  "parse_build s =
     (if list_all is_build_id (split_on CHR ''.'' s) then Some (split_on CHR ''.'' s) else None)"

text \<open>The optional leading \<open>v\<close>.\<close>

definition strip_v :: "string \<Rightarrow> string" where
  "strip_v t = (case t of [] \<Rightarrow> [] | c # cs \<Rightarrow> if c = CHR ''v'' then cs else t)"

text \<open>The main version, the text after \<open>-\<close> if there is one, the text after \<open>+\<close> if
  there is one.\<close>

definition main_char :: "char \<Rightarrow> bool" where
  "main_char c = (c \<noteq> CHR ''-'' \<and> c \<noteq> CHR ''+'')"

definition pre_char :: "char \<Rightarrow> bool" where
  "pre_char c = (c \<noteq> CHR ''+'')"

definition version_parts :: "string \<Rightarrow> string \<times> string option \<times> string option" where
  "version_parts t =
     (case dropWhile main_char t of
        [] \<Rightarrow> (t, None, None)
      | c # cs \<Rightarrow>
          if c = CHR ''-''
          then (takeWhile main_char t, Some (takeWhile pre_char cs),
                (case dropWhile pre_char cs of [] \<Rightarrow> None | p # bs \<Rightarrow> Some bs))
          else (takeWhile main_char t, None, Some cs))"

text \<open>
  Modelled from the spec: the constructor \<open>new SemVer(version)\<close> of the semver package
  (the spec's "syntactically valid semantic version"). \<open>None\<close> stands for the
  \<open>TypeError\<close> it throws. The length is checked on the string as given, the grammar on
  the trimmed string.
\<close>

definition SemVer_new :: "string \<Rightarrow> SemVer option" where
  "SemVer_new version =
     (if MAX_LENGTH < length version then None
      else
        (case version_parts (strip_v (trim version)) of
           (mainpart, prepart, buildpart) \<Rightarrow>
             (case parse_main mainpart of
                None \<Rightarrow> None
              | Some (ma, mi, pa) \<Rightarrow>
                  (case (case prepart of None \<Rightarrow> Some [] | Some p \<Rightarrow> parse_prerelease p) of
                     None \<Rightarrow> None
                   | Some pre \<Rightarrow>
                       (case (case buildpart of None \<Rightarrow> Some [] | Some b \<Rightarrow> parse_build b) of
                          None \<Rightarrow> None
                        | Some bld \<Rightarrow>
                            Some \<lparr>major = ma, minor = mi, patch = pa,
                                  prerelease = pre, build = bld\<rparr>)))))"

subsection \<open>Formatting: the version field\<close>

fun show_ident :: "ident \<Rightarrow> string" where
  "show_ident (Num n) = show_nat n"
| "show_ident (Str s) = s"

definition main_text :: "nat \<Rightarrow> nat \<Rightarrow> nat \<Rightarrow> string" where
  "main_text a b c = show_nat a @ ''.'' @ show_nat b @ ''.'' @ show_nat c"

definition format :: "SemVer \<Rightarrow> string" where
  "format v =
     main_text (major v) (minor v) (patch v)
     @ (if prerelease v = [] then [] else ''-'' @ join ''.'' (map show_ident (prerelease v)))"

text \<open>
  Modelled from the spec: \<open>semver.valid(version)\<close> of the semver package, the formatted
  version or \<open>null\<close>. A value that is not a string (\<open>undefined\<close> from a cancelled
  prompt) is not valid.
\<close>

definition valid :: "string option \<Rightarrow> string option" where
  "valid version =
     (case version of None \<Rightarrow> None | Some s \<Rightarrow> map_option format (SemVer_new s))"

subsection \<open>Comparing\<close>

text \<open>
  \<open>compareIdentifiers(a, b)\<close>: two all-digit identifiers compare as numbers (a digit
  string the parser kept as a string is rounded to a double first), a numeric one is
  below any other, two others compare as strings.
\<close>

fun ident_numeric :: "ident \<Rightarrow> bool" where
  "ident_numeric (Num n) = True"
| "ident_numeric (Str s) = (s \<noteq> [] \<and> list_all isDigit s)"

fun ident_number :: "ident \<Rightarrow> nat" where
  "ident_number (Num n) = n"
| "ident_number (Str s) = to_double (read_nat s)"

definition compareIdentifiers :: "ident \<Rightarrow> ident \<Rightarrow> int" where
  "compareIdentifiers a b =
     (if ident_numeric a \<and> ident_numeric b then
        (if ident_number a = ident_number b then 0
         else if ident_number a < ident_number b then - 1 else 1)
      else if a = b then 0
      else if ident_numeric a then - 1
      else if ident_numeric b then 1
      else if str_less (show_ident a) (show_ident b) then - 1 else 1)"

text \<open>The loop of \<open>comparePre\<close> over the two prerelease lists, once both are known to be
  non-empty or one has run out.\<close>

fun comparePre_loop :: "ident list \<Rightarrow> ident list \<Rightarrow> int" where
  "comparePre_loop [] [] = 0"
| "comparePre_loop (a # as) [] = 1"
| "comparePre_loop [] (b # bs) = - 1"
| "comparePre_loop (a # as) (b # bs) =
     (if a = b then comparePre_loop as bs else compareIdentifiers a b)"

definition comparePre :: "SemVer \<Rightarrow> SemVer \<Rightarrow> int" where
  "comparePre this other =
     (if prerelease this \<noteq> [] \<and> prerelease other = [] then - 1
      else if prerelease this = [] \<and> prerelease other \<noteq> [] then 1
      else if prerelease this = [] \<and> prerelease other = [] then 0
      else comparePre_loop (prerelease this) (prerelease other))"

definition compareNum :: "nat \<Rightarrow> nat \<Rightarrow> int" where
  "compareNum a b = (if a = b then 0 else if a < b then - 1 else 1)"

definition compareMain :: "SemVer \<Rightarrow> SemVer \<Rightarrow> int" where
  "compareMain this other =
     (if compareNum (major this) (major other) \<noteq> 0 then compareNum (major this) (major other)
      else if compareNum (minor this) (minor other) \<noteq> 0 then compareNum (minor this) (minor other)
      else compareNum (patch this) (patch other))"

definition compare :: "SemVer \<Rightarrow> SemVer \<Rightarrow> int" where
  "compare this other =
     (if compareMain this other \<noteq> 0 then compareMain this other else comparePre this other)"

text \<open>
  Modelled from the spec: \<open>semver.gt(a, b)\<close> of the semver package, the order the spec
  means by "greater than the current version"; \<open>None\<close> when one of the strings does
  not parse (it throws).
\<close>

definition gt :: "string \<Rightarrow> string \<Rightarrow> bool option" where
  "gt a b =
     (case SemVer_new a of None \<Rightarrow> None
      | Some x \<Rightarrow> (case SemVer_new b of None \<Rightarrow> None | Some y \<Rightarrow> Some (0 < compare x y)))"

subsection \<open>Incrementing\<close>

text \<open>
  \<open>isNaN(x)\<close> for a prerelease identifier: a number is not NaN, a string is NaN unless
  \<open>Number\<close> reads it as a numeric literal. Over the identifier alphabet those are
  \<open>Infinity\<close>, decimal digits with an optional exponent (each with an optional \<open>-\<close>),
  and the \<open>0x\<close>, \<open>0o\<close>, \<open>0b\<close> literals.
\<close>

definition strip_minus :: "string \<Rightarrow> string" where
  "strip_minus s = (case s of [] \<Rightarrow> [] | c # cs \<Rightarrow> if c = CHR ''-'' then cs else s)"

definition is_digits :: "string \<Rightarrow> bool" where
  "is_digits s = (s \<noteq> [] \<and> list_all isDigit s)"

definition is_decimal_literal :: "string \<Rightarrow> bool" where
  "is_decimal_literal s =
     (is_digits (takeWhile isDigit s) \<and>
      (case dropWhile isDigit s of [] \<Rightarrow> True
       | c # cs \<Rightarrow> (c = CHR ''e'' \<or> c = CHR ''E'') \<and> is_digits (strip_minus cs)))"

definition is_radix_literal :: "string \<Rightarrow> bool" where
  "is_radix_literal s =
     (case s of
        c # x # ds \<Rightarrow>
          c = CHR ''0'' \<and> ds \<noteq> [] \<and>
          ((x \<in> set ''xX'' \<and> list_all (\<lambda>d. d \<in> set ''0123456789abcdefABCDEF'') ds) \<or>
           (x \<in> set ''oO'' \<and> list_all (\<lambda>d. d \<in> set ''01234567'') ds) \<or>
           (x \<in> set ''bB'' \<and> list_all (\<lambda>d. d \<in> set ''01'') ds))
      | _ \<Rightarrow> False)"

fun isNaN :: "ident \<Rightarrow> bool" where
  "isNaN (Num n) = False"
| "isNaN (Str s) =
     (\<not> (strip_minus s = ''Infinity'' \<or> is_decimal_literal (strip_minus s)
         \<or> is_radix_literal s))"

text \<open>The backwards loop of case \<open>pre\<close>: the last numeric entry is incremented; \<open>None\<close>
  when there is none (\<open>i === -1\<close> after the loop).\<close>

fun bump_first :: "ident list \<Rightarrow> ident list option" where
  "bump_first [] = None"
| "bump_first (Num n # xs) = Some (Num (Suc n) # xs)"
| "bump_first (Str s # xs) = map_option ((#) (Str s)) (bump_first xs)"

definition bump_last :: "ident list \<Rightarrow> ident list option" where
  "bump_last pr = map_option rev (bump_first (rev pr))"

text \<open>Case \<open>pre\<close> of \<open>inc\<close>, with \<open>identifierBase\<close> left undefined (base 0).\<close>

definition inc_pre :: "string \<Rightarrow> SemVer \<Rightarrow> SemVer" where
  "inc_pre identifier v =
     (let pr1 = (if prerelease v = [] then [Num 0]
                 else (case bump_last (prerelease v) of
                         Some pr' \<Rightarrow> pr' | None \<Rightarrow> prerelease v @ [Num 0]));
          fresh = [Str identifier, Num 0]
      in if identifier \<noteq> [] then
           (case pr1 of
              [] \<Rightarrow> v\<lparr>prerelease := fresh\<rparr>
            | p # ps \<Rightarrow>
                if compareIdentifiers p (mk_ident identifier) = 0 then
                  (case ps of
                     [] \<Rightarrow> v\<lparr>prerelease := fresh\<rparr>
                   | q # qs \<Rightarrow> if isNaN q then v\<lparr>prerelease := fresh\<rparr>
                               else v\<lparr>prerelease := pr1\<rparr>)
                else v\<lparr>prerelease := fresh\<rparr>)
         else v\<lparr>prerelease := pr1\<rparr>)"

definition inc_patch :: "SemVer \<Rightarrow> SemVer" where
  "inc_patch v =
     (if prerelease v = [] then v\<lparr>patch := patch v + 1, prerelease := []\<rparr>
      else v\<lparr>prerelease := []\<rparr>)"

definition inc_minor :: "SemVer \<Rightarrow> SemVer" where
  "inc_minor v =
     (if patch v \<noteq> 0 \<or> prerelease v = []
      then v\<lparr>minor := minor v + 1, patch := 0, prerelease := []\<rparr>
      else v\<lparr>patch := 0, prerelease := []\<rparr>)"

definition inc_major :: "SemVer \<Rightarrow> SemVer" where
  "inc_major v =
     (if minor v \<noteq> 0 \<or> patch v \<noteq> 0 \<or> prerelease v = []
      then v\<lparr>major := major v + 1, minor := 0, patch := 0, prerelease := []\<rparr>
      else v\<lparr>minor := 0, patch := 0, prerelease := []\<rparr>)"

fun SemVer_inc :: "SemVer \<Rightarrow> ReleaseType \<Rightarrow> string \<Rightarrow> SemVer" where
  "SemVer_inc v Premajor identifier =
     inc_pre identifier (v\<lparr>prerelease := [], patch := 0, minor := 0, major := major v + 1\<rparr>)"
| "SemVer_inc v Preminor identifier =
     inc_pre identifier (v\<lparr>prerelease := [], patch := 0, minor := minor v + 1\<rparr>)"
| "SemVer_inc v Prepatch identifier =
     inc_pre identifier (inc_patch (v\<lparr>prerelease := []\<rparr>))"
| "SemVer_inc v Prerelease identifier =
     inc_pre identifier (if prerelease v = [] then inc_patch v else v)"
| "SemVer_inc v Major identifier = inc_major v"
| "SemVer_inc v Minor identifier = inc_minor v"
| "SemVer_inc v Patch identifier = inc_patch v"

text \<open>
  Modelled from the spec: \<open>semver.inc(version, release, identifier)\<close> of the semver
  package (the spec's "standard semver increment rules using a fixed prerelease
  identifier"); \<open>null\<close> when the version does not parse.
\<close>

definition semver_inc :: "string \<Rightarrow> ReleaseType \<Rightarrow> string \<Rightarrow> string option" where
  "semver_inc version release identifier =
     (case SemVer_new version of
        None \<Rightarrow> None
      | Some v \<Rightarrow> Some (format (SemVer_inc v release identifier)))"

text \<open>
  An identifier that the order of \<open>compareIdentifiers\<close> puts below \<open>beta\<close>: a numeric
  one, or one whose text sorts before it.
\<close>

definition below_beta :: "ident \<Rightarrow> bool" where
  "below_beta p = (ident_numeric p \<or> str_less (show_ident p) ''beta'')"

section \<open>JSON values and JSON.stringify\<close>

text \<open>
  The value \<open>JSON.parse\<close> returns: an object is the list of its properties in
  JavaScript's enumeration order (keys are distinct), a number is held by its canonical
  decimal rendering \<open>String(x)\<close>, which is what \<open>JSON.stringify\<close> emits for it.
  \<open>JSON.parse\<close> itself is a built-in of the runtime; the script's functions take it as
  the parameter \<open>JSON_parse\<close>.
\<close>

datatype json =
    JNull
  | JBool bool
  | JNumber string
  | JString string
  | JArray "json list"
  | JObject "(string \<times> json) list"

datatype error =
    Error string
  | TypeError string
  | SyntaxError string
  | ExecaError string "string option"

text \<open>\<open>e.stderr\<close>: only the error of a failed process carries one, and only when the
  stream was captured.\<close>

fun stderr :: "error \<Rightarrow> string option" where
  "stderr (ExecaError command err) = err"
| "stderr (Error m) = None"
| "stderr (TypeError m) = None"
| "stderr (SyntaxError m) = None"

text \<open>\<open>QuoteJSONString\<close>: the two-character escapes, \<open>\u00xx\<close> for the other control
  characters, every other character as it is.\<close>

definition hex_digit :: "nat \<Rightarrow> char" where
  "hex_digit n = ''0123456789abcdef'' ! (n mod 16)"

definition quote_char :: "char \<Rightarrow> string" where
  "quote_char c =
     (if c = CHR 0x22 then [CHR 0x5C, CHR 0x22]
      else if c = CHR 0x5C then [CHR 0x5C, CHR 0x5C]
      else if c = CHR 0x08 then [CHR 0x5C, CHR ''b'']
      else if c = CHR 0x0C then [CHR 0x5C, CHR ''f'']
      else if c = CHR 0x0A then [CHR 0x5C, CHR ''n'']
      else if c = CHR 0x0D then [CHR 0x5C, CHR ''r'']
      else if c = CHR 0x09 then [CHR 0x5C, CHR ''t'']
      else if (of_char c :: nat) < 32
        then [CHR 0x5C, CHR ''u'', CHR ''0'', CHR ''0'',
              hex_digit (of_char c div 16), hex_digit (of_char c)]
      else [c])"

definition QuoteJSONString :: "string \<Rightarrow> string" where
  "QuoteJSONString s = [CHR 0x22] @ concat (map quote_char s) @ [CHR 0x22]"

text \<open>
  \<open>SerializeJSONProperty\<close> with a gap of \<open>gap\<close> at the current indentation \<open>indent\<close>
  (\<open>JSON.stringify(value, null, 2)\<close> starts it with two spaces and no indentation).
\<close>

fun serialize :: "string \<Rightarrow> string \<Rightarrow> json \<Rightarrow> string"
  and serialize_elems :: "string \<Rightarrow> string \<Rightarrow> json list \<Rightarrow> string list"
  and serialize_props :: "string \<Rightarrow> string \<Rightarrow> (string \<times> json) list \<Rightarrow> string list" where
  "serialize gap indent JNull = ''null''"
| "serialize gap indent (JBool b) = (if b then ''true'' else ''false'')"
| "serialize gap indent (JNumber n) = n"
| "serialize gap indent (JString s) = QuoteJSONString s"
| "serialize gap indent (JArray xs) =
     (if xs = [] then ''[]''
      else ''['' @ [CHR 0x0A] @ (indent @ gap)
           @ join ('','' @ [CHR 0x0A] @ (indent @ gap)) (serialize_elems gap (indent @ gap) xs)
           @ [CHR 0x0A] @ indent @ '']'')"
| "serialize gap indent (JObject ps) =
     (if ps = [] then ''{}''
      else ''{'' @ [CHR 0x0A] @ (indent @ gap)
           @ join ('','' @ [CHR 0x0A] @ (indent @ gap)) (serialize_props gap (indent @ gap) ps)
           @ [CHR 0x0A] @ indent @ ''}'')"
| "serialize_elems gap indent [] = []"
| "serialize_elems gap indent (x # xs) = serialize gap indent x # serialize_elems gap indent xs"
| "serialize_props gap indent [] = []"
| "serialize_props gap indent ((k, v) # ps) =
     (QuoteJSONString k @ '': '' @ serialize gap indent v) # serialize_props gap indent ps"

definition JSON_stringify2 :: "json \<Rightarrow> string" where
  "JSON_stringify2 v = serialize ''  '' [] v"

text \<open>\<open>obj[key] = v\<close> on the property list: an existing property keeps its place, a new
  one goes last.\<close>

fun put_prop :: "string \<Rightarrow> json \<Rightarrow> (string \<times> json) list \<Rightarrow> (string \<times> json) list" where
  "put_prop key v [] = [(key, v)]"
| "put_prop key v ((k, x) # ps) =
     (if k = key then (k, v) # ps else (k, x) # put_prop key v ps)"

fun get_prop :: "string \<Rightarrow> (string \<times> json) list \<Rightarrow> json option" where
  "get_prop key [] = None"
| "get_prop key ((k, x) # ps) = (if k = key then Some x else get_prop key ps)"

text \<open>
  \<open>pkg.version = version\<close> in strict mode: on \<open>null\<close> and on a primitive it throws; on
  an array it sets a property that \<open>JSON.stringify\<close> does not show.
\<close>

fun set_version :: "json \<Rightarrow> string \<Rightarrow> error + json" where
  "set_version (JObject ps) version = Inr (JObject (put_prop ''version'' (JString version) ps))"
| "set_version (JArray xs) version = Inr (JArray xs)"
| "set_version JNull version = Inl (TypeError ''Cannot set properties of null'')"
| "set_version (JBool b) version = Inl (TypeError ''Cannot create property on boolean'')"
| "set_version (JNumber n) version = Inl (TypeError ''Cannot create property on number'')"
| "set_version (JString s) version = Inl (TypeError ''Cannot create property on string'')"

section \<open>The release script\<close>

subsection \<open>The world the script runs in\<close>

text \<open>
  An argument handed to \<open>execa\<close> is a string, except for \<open>tag\<close>, which the script
  computes as a boolean. \<open>arg_string\<close> is JavaScript's \<open>String(x)\<close>, used by template
  literals and by \<open>Array.prototype.join\<close>.
\<close>

datatype arg = S string | B bool

fun arg_string :: "arg \<Rightarrow> string" where
  "arg_string (S s) = s"
| "arg_string (B b) = (if b then ''true'' else ''false'')"

datatype stdio = Inherit | Pipe

datatype colour = Plain | Cyan | Blue | Green | Red

text \<open>Everything the script does to the outside, in the order it does it.\<close>

datatype event =
    PromptSelect string "string list"
  | PromptText string string
  | PromptConfirm string
  | Log colour string
  | LogWith colour string "stdio option"
  | LogError error
  | Exec string "arg list" stdio
  | WriteFile string

text \<open>
  The mutable state: the text of the manifest file at \<open>pkgPath\<close> (the file exists, the
  module has loaded it, and can be written), \<open>args.tag\<close> (which \<open>main\<close> overwrites), and
  the events so far.
\<close>

record world =
  manifest :: string
  args_tag :: "string option"
  trace :: "event list"

text \<open>The constants the module computes when it is loaded.\<close>

record config =
  args_target :: "string option"
  isDryRun :: bool
  skipBuild :: bool
  pkg_name :: string
  currentVersion :: string

text \<open>What the operator answers to each prompt; \<open>None\<close> and \<open>NoAnswer\<close> stand for a
  cancelled prompt, whose answer is \<open>undefined\<close>.\<close>

datatype select_answer = Choose ReleaseType | ChooseCustom | NoAnswer

record operator =
  ans_release :: select_answer
  ans_version :: "string option"
  ans_tagBeta :: "bool option"
  ans_yes :: "bool option"

text \<open>The outcome of an external process: its captured standard output, or the error
  \<open>execa\<close> rejects with.\<close>

type_synonym executor = "string \<Rightarrow> arg list \<Rightarrow> stdio \<Rightarrow> error + string"

type_synonym 'a io = "world \<Rightarrow> (error + 'a) \<times> world"

definition return :: "'a \<Rightarrow> 'a io" where
  "return x = (\<lambda>w. (Inr x, w))"

definition throw :: "error \<Rightarrow> 'a io" where
  "throw e = (\<lambda>w. (Inl e, w))"

definition bind :: "'a io \<Rightarrow> ('a \<Rightarrow> 'b io) \<Rightarrow> 'b io" where
  "bind m f = (\<lambda>w. case m w of (Inl e, w') \<Rightarrow> (Inl e, w') | (Inr x, w') \<Rightarrow> f x w')"

definition emit :: "event \<Rightarrow> unit io" where
  "emit e = (\<lambda>w. (Inr (), w\<lparr>trace := trace w @ [e]\<rparr>))"

text \<open>JavaScript truthiness of an optional string and of an optional boolean.\<close>

fun truthy :: "string option \<Rightarrow> bool" where
  "truthy None = False"
| "truthy (Some s) = (s \<noteq> [])"

fun truthy_bool :: "bool option \<Rightarrow> bool" where
  "truthy_bool None = False"
| "truthy_bool (Some b) = b"

subsection \<open>Module-level helpers\<close>

text \<open>\<open>pkg.name.replace(/^@tencent\//, '').replace('tds-vue-plugin-', '')\<close>.\<close>

definition strip_prefix :: "string \<Rightarrow> string \<Rightarrow> string" where
  "strip_prefix p s = (if starts_with s p then drop (length p) s else s)"

fun replace_first :: "string \<Rightarrow> string \<Rightarrow> string \<Rightarrow> string" where
  "replace_first p r [] = (if p = [] then r else [])"
| "replace_first p r (c # cs) =
     (if starts_with (c # cs) p then r @ drop (length p) (c # cs)
      else c # replace_first p r cs)"

definition pkgName :: "config \<Rightarrow> string" where
  "pkgName cfg = replace_first ''tds-vue-plugin-'' [] (strip_prefix ''@tencent/'' (pkg_name cfg))"

definition inc :: "config \<Rightarrow> ReleaseType \<Rightarrow> string option" where
  "inc cfg i = semver_inc (currentVersion cfg) i ''beta''"

definition run :: "executor \<Rightarrow> string \<Rightarrow> arg list \<Rightarrow> stdio option \<Rightarrow> string io" where
  "run exec bin args opts =
     (let io = (case opts of None \<Rightarrow> Inherit | Some x \<Rightarrow> x)
      in bind (emit (Exec bin args io))
           (\<lambda>_. case exec bin args io of Inl e \<Rightarrow> throw e | Inr out \<Rightarrow> return out))"

definition dryRun :: "string \<Rightarrow> arg list \<Rightarrow> stdio option \<Rightarrow> unit io" where
  "dryRun bin args opts =
     emit (LogWith Blue (''[dryrun] '' @ bin @ '' '' @ join '' '' (map arg_string args)) opts)"

definition runIfNotDry ::
  "config \<Rightarrow> executor \<Rightarrow> string \<Rightarrow> arg list \<Rightarrow> stdio option \<Rightarrow> unit io" where
  "runIfNotDry cfg exec bin args opts =
     (if isDryRun cfg then dryRun bin args opts
      else bind (run exec bin args opts) (\<lambda>_. return ()))"

definition step :: "string \<Rightarrow> unit io" where
  "step msg = emit (Log Cyan msg)"

definition updateVersion :: "(string \<Rightarrow> error + json) \<Rightarrow> string \<Rightarrow> unit io" where
  "updateVersion JSON_parse version =
     (\<lambda>w. case JSON_parse (manifest w) of
             Inl e \<Rightarrow> (Inl e, w)
           | Inr pkg \<Rightarrow>
               (case set_version pkg version of
                  Inl e \<Rightarrow> (Inl e, w)
                | Inr pkg' \<Rightarrow>
                    (Inr (), w\<lparr>manifest := JSON_stringify2 pkg' @ [CHR 0x0A],
                               trace := trace w @ [WriteFile (JSON_stringify2 pkg' @ [CHR 0x0A])]\<rparr>)))"

text \<open>
  \<open>publishPackage\<close>: the \<open>catch\<close> clause reads \<open>e.stderr.match(...)\<close>; on an error
  without \<open>stderr\<close> that read is itself a \<open>TypeError\<close>.
\<close>

definition publicArgs :: "string option \<Rightarrow> string \<Rightarrow> arg list" where
  "publicArgs dist_tag version =
     [S ''publish'', S ''--no-git-tag-version'', S ''--new-version'', S version,
      S ''--access'', S ''public'']
     @ (case dist_tag of None \<Rightarrow> []
        | Some t \<Rightarrow> if t \<noteq> [] then [S ''--tag'', S t] else [])"

definition publish_catch :: "config \<Rightarrow> error \<Rightarrow> unit io" where
  "publish_catch cfg e =
     (case stderr e of
        None \<Rightarrow> throw (TypeError ''Cannot read properties of undefined (reading match)'')
      | Some err \<Rightarrow>
          if str_includes err ''previously published''
          then emit (Log Red (''Skipping already published: '' @ pkgName cfg))
          else throw e)"

definition publishPackage :: "config \<Rightarrow> executor \<Rightarrow> string \<Rightarrow> unit io" where
  "publishPackage cfg exec version =
     (\<lambda>w. case bind (runIfNotDry cfg exec ''yarn'' (publicArgs (args_tag w) version) (Some Pipe))
                  (\<lambda>_. emit (Log Green (''Successfully published '' @ pkgName cfg
                                          @ ''@'' @ version))) w of
             (Inl e, w') \<Rightarrow> publish_catch cfg e w'
           | (Inr u, w') \<Rightarrow> (Inr u, w'))"

subsection \<open>main\<close>

text \<open>The titles of the select prompt: \<open>`${i} (${inc(i)})`\<close> for each increment, then
  \<open>custom\<close>. A \<open>null\<close> from \<open>inc\<close> is printed as \<open>null\<close>.\<close>

definition choice_title :: "config \<Rightarrow> ReleaseType \<Rightarrow> string" where
  "choice_title cfg i =
     release_name i @ '' ('' @ (case inc cfg i of None \<Rightarrow> ''null'' | Some v \<Rightarrow> v) @ '')''"

definition choices :: "config \<Rightarrow> string list" where
  "choices cfg = map (choice_title cfg) versionIncrements @ [''custom'']"

text \<open>
  \<open>release.match(/\((.*)\)/)\<close>, first group: from the first \<open>(\<close> that has a \<open>)\<close> after
  it on the same line, up to the last \<open>)\<close> of that line. \<open>None\<close> is no match.
\<close>

definition line_end :: "char \<Rightarrow> bool" where
  "line_end c = (c = CHR 0x0A \<or> c = CHR 0x0D)"

fun match_parens :: "string \<Rightarrow> string option" where
  "match_parens [] = None"
| "match_parens (c # cs) =
     (if c = CHR ''('' \<and> CHR '')'' \<in> set (takeWhile (\<lambda>x. \<not> line_end x) cs)
      then Some (rev (tl (dropWhile (\<lambda>x. x \<noteq> CHR '')'')
                             (rev (takeWhile (\<lambda>x. \<not> line_end x) cs)))))
      else match_parens cs)"

text \<open>Lines 71 to 98: the target version, from the command line or from the prompts.\<close>

definition askTargetVersion :: "config \<Rightarrow> operator \<Rightarrow> string option io" where
  "askTargetVersion cfg op =
     (if truthy (args_target cfg) then return (args_target cfg)
      else
        bind (emit (PromptSelect ''Select release type'' (choices cfg)))
          (\<lambda>_. case ans_release op of
                  ChooseCustom \<Rightarrow>
                    bind (emit (PromptText ''Input custom version'' (currentVersion cfg)))
                      (\<lambda>_. return (ans_version op))
                | Choose i \<Rightarrow>
                    (case match_parens (choice_title cfg i) of
                       None \<Rightarrow> throw (TypeError ''Cannot read properties of null (reading 1)'')
                     | Some v \<Rightarrow> return (Some v))
                | NoAnswer \<Rightarrow>
                    throw (TypeError ''Cannot read properties of undefined (reading match)'')))"

text \<open>Line 106: \<open>tag\<close> is the result of a comparison.\<close>

definition tag :: "config \<Rightarrow> string \<Rightarrow> bool" where
  "tag cfg targetVersion = (pkgName cfg = pkgName cfg @ ''@'' @ targetVersion)"

text \<open>Lines 109 to 117. The message is \<open>Publish under dist-tag "beta"?\<close>.\<close>

definition beta_question :: string where
  "beta_question = ''Publish under dist-tag '' @ [CHR 0x22] @ ''beta'' @ [CHR 0x22] @ ''?''"

definition askBetaTag :: "operator \<Rightarrow> string \<Rightarrow> unit io" where
  "askBetaTag op targetVersion =
     (\<lambda>w. if str_includes targetVersion ''beta'' \<and> \<not> truthy (args_tag w)
           then bind (emit (PromptConfirm beta_question))
                  (\<lambda>_ w'. if truthy_bool (ans_tagBeta op)
                           then (Inr (), w'\<lparr>args_tag := Some ''beta''\<rparr>)
                           else (Inr (), w')) w
           else (Inr (), w))"

text \<open>Lines 134 to 140.\<close>

definition build_step :: "config \<Rightarrow> executor \<Rightarrow> unit io" where
  "build_step cfg exec =
     bind (step ([CHR 0x0A] @ ''Building package...''))
       (\<lambda>_. if \<not> skipBuild cfg \<and> \<not> isDryRun cfg
             then bind (run exec ''pnpm'' [S ''run'', S ''build''] None) (\<lambda>_. return ())
             else emit (Log Plain ''(skipped)''))"

text \<open>Lines 142 to 157.\<close>

definition commit_step :: "config \<Rightarrow> executor \<Rightarrow> bool \<Rightarrow> unit io" where
  "commit_step cfg exec tg =
     bind (step ([CHR 0x0A] @ ''Generating changelog...''))
       (\<lambda>_. bind (run exec ''pnpm'' [S ''run'', S ''changelog''] None)
       (\<lambda>_. bind (run exec ''git'' [S ''diff''] (Some Pipe))
       (\<lambda>stdout.
          if stdout \<noteq> [] then
            bind (step ([CHR 0x0A] @ ''Committing changes...''))
              (\<lambda>_. bind (runIfNotDry cfg exec ''git'' [S ''add'', S ''-A''] None)
              (\<lambda>_. bind (runIfNotDry cfg exec ''git''
                           [S ''commit'', S ''-m'', S (''release: '' @ arg_string (B tg))] None)
              (\<lambda>_. runIfNotDry cfg exec ''git'' [S ''tag'', B tg] None)))
          else emit (Log Plain ''No changes to commit.''))))"

text \<open>Lines 163 to 172.\<close>

definition push_step :: "config \<Rightarrow> executor \<Rightarrow> bool \<Rightarrow> unit io" where
  "push_step cfg exec tg =
     bind (step ([CHR 0x0A] @ ''Pushing to GitHub...''))
       (\<lambda>_. bind (runIfNotDry cfg exec ''git''
                    [S ''push'', S ''origin'', S (''refs/tags/'' @ arg_string (B tg))] None)
       (\<lambda>_. bind (runIfNotDry cfg exec ''git'' [S ''push''] None)
       (\<lambda>_. bind (if isDryRun cfg
                   then emit (Log Plain ([CHR 0x0A]
                          @ ''Dry run finished - run git diff to see package changes.''))
                   else return ())
       (\<lambda>_. emit (Log Plain [])))))"

text \<open>Lines 130 to 172: what runs once the operator has confirmed.\<close>

definition release_steps ::
  "config \<Rightarrow> executor \<Rightarrow> (string \<Rightarrow> error + json) \<Rightarrow> string \<Rightarrow> unit io" where
  "release_steps cfg exec JSON_parse targetVersion =
     bind (step ([CHR 0x0A] @ ''Updating package version...''))
       (\<lambda>_. bind (updateVersion JSON_parse targetVersion)
       (\<lambda>_. bind (build_step cfg exec)
       (\<lambda>_. bind (commit_step cfg exec (tag cfg targetVersion))
       (\<lambda>_. bind (step ([CHR 0x0A] @ ''Publishing package...''))
       (\<lambda>_. bind (publishPackage cfg exec targetVersion)
       (\<lambda>_. push_step cfg exec (tag cfg targetVersion)))))))"

definition confirm_message :: "config \<Rightarrow> string \<Rightarrow> string" where
  "confirm_message cfg targetVersion =
     ''Releasing '' @ arg_string (B (tag cfg targetVersion)) @ ''. Confirm?''"

definition main ::
  "config \<Rightarrow> operator \<Rightarrow> executor \<Rightarrow> (string \<Rightarrow> error + json) \<Rightarrow> unit io" where
  "main cfg op exec JSON_parse =
     bind (askTargetVersion cfg op)
       (\<lambda>tv. case tv of
                None \<Rightarrow> throw (Error ''invalid target version: undefined'')
              | Some targetVersion \<Rightarrow>
                  if valid (Some targetVersion) = None
                  then throw (Error (''invalid target version: '' @ targetVersion))
                  else
                    bind (askBetaTag op targetVersion)
                      (\<lambda>_. bind (emit (PromptConfirm (confirm_message cfg targetVersion)))
                      (\<lambda>_. if \<not> truthy_bool (ans_yes op) then return ()
                            else release_steps cfg exec JSON_parse targetVersion)))"

text \<open>
  The last statement of the module, \<open>main().catch((err) => { console.error(err) })\<close>:
  the handler prints the error and returns, so the promise the module is left with is
  fulfilled either way. The process then ends with \<open>process.exitCode\<close>, which nothing
  in the script sets: 0. (A rejection nobody handles would end it with 1.)
\<close>

definition exit_status :: "(error + unit) \<Rightarrow> nat" where
  "exit_status settled = (case settled of Inl e \<Rightarrow> 1 | Inr u \<Rightarrow> 0)"

definition catch_handler :: "error \<Rightarrow> unit io" where
  "catch_handler err = emit (LogError err)"

definition script ::
  "config \<Rightarrow> operator \<Rightarrow> executor \<Rightarrow> (string \<Rightarrow> error + json) \<Rightarrow> world \<Rightarrow> nat \<times> world" where
  "script cfg op exec JSON_parse w =
     (case main cfg op exec JSON_parse w of
        (Inl err, w') \<Rightarrow> (exit_status (fst (catch_handler err w')), snd (catch_handler err w'))
      | (Inr u, w') \<Rightarrow> (exit_status (Inr u), w'))"

subsection \<open>Failed invocations\<close>

text \<open>
  An invocation of an external process fails when \<open>execa\<close> rejects; the one failure the
  script tolerates is a publish (the only \<open>yarn\<close> command) whose error output contains
  \<open>previously published\<close>. \<open>failed\<close> says of an event of the trace that it is an
  invocation that failed and is not tolerated, \<open>thrown\<close> which error the script then
  raises: the error of the process, or for a publish error without \<open>stderr\<close> the
  \<open>TypeError\<close> of the \<open>catch\<close> clause.
\<close>

definition tolerated :: "string \<Rightarrow> error \<Rightarrow> bool" where
  "tolerated bin e =
     (bin = ''yarn'' \<and>
      (case stderr e of None \<Rightarrow> False | Some err \<Rightarrow> str_includes err ''previously published''))"

fun failed :: "executor \<Rightarrow> event \<Rightarrow> bool" where
  "failed exec (Exec bin args io) =
     (case exec bin args io of Inl e \<Rightarrow> \<not> tolerated bin e | Inr out \<Rightarrow> False)"
| "failed exec ev = False"

fun thrown :: "executor \<Rightarrow> event \<Rightarrow> error \<Rightarrow> bool" where
  "thrown exec (Exec bin args io) err =
     (case exec bin args io of
        Inl e \<Rightarrow>
          if bin = ''yarn'' \<and> stderr e = None
          then err = TypeError ''Cannot read properties of undefined (reading match)''
          else err = e
      | Inr out \<Rightarrow> False)"
| "thrown exec ev err = False"

text \<open>
  The shape of the events an action adds to the trace: when it returns, none of them is a
  failed invocation; when it throws, none but possibly the last is, and then the error is
  the one that invocation raises.
\<close>

definition orderly :: "executor \<Rightarrow> (error + 'a) \<Rightarrow> event list \<Rightarrow> bool" where
  "orderly exec r evs =
     (case r of
        Inr x \<Rightarrow> list_all (\<lambda>ev. \<not> failed exec ev) evs
      | Inl err \<Rightarrow>
          list_all (\<lambda>ev. \<not> failed exec ev) (butlast evs)
          \<and> (if evs \<noteq> [] \<and> failed exec (last evs) then thrown exec (last evs) err else True))"

definition obeys :: "executor \<Rightarrow> 'a io \<Rightarrow> bool" where
  "obeys exec m = (\<forall>w. \<exists>evs. trace (snd (m w)) = trace w @ evs \<and> orderly exec (fst (m w)) evs)"

subsection \<open>What an action adds to the trace\<close>

text \<open>
  \<open>emits P m\<close>: every event the action \<open>m\<close> adds to the trace satisfies \<open>P\<close>, whether it
  returns or throws. \<open>keeps_manifest m\<close>: \<open>m\<close> leaves the manifest file as it is.
  \<open>is_prompt\<close> holds of the three prompts; \<open>dry_event\<close> holds of every event but the
  invocation of a process other than the changelog command and \<open>git diff\<close>.
\<close>

fun is_prompt :: "event \<Rightarrow> bool" where
  "is_prompt (PromptSelect message titles) = True"
| "is_prompt (PromptText message initial) = True"
| "is_prompt (PromptConfirm message) = True"
| "is_prompt ev = False"

fun dry_event :: "event \<Rightarrow> bool" where
  "dry_event (Exec bin args io) =
     ((bin = ''pnpm'' \<and> args = [S ''run'', S ''changelog''] \<and> io = Inherit)
      \<or> (bin = ''git'' \<and> args = [S ''diff''] \<and> io = Pipe))"
| "dry_event ev = True"

definition emits :: "(event \<Rightarrow> bool) \<Rightarrow> 'a io \<Rightarrow> bool" where
  "emits P m = (\<forall>w. \<exists>evs. trace (snd (m w)) = trace w @ evs \<and> list_all P evs)"

definition keeps_manifest :: "'a io \<Rightarrow> bool" where
  "keeps_manifest m = (\<forall>w. manifest (snd (m w)) = manifest w)"

subsection \<open>Sample inputs\<close>

text \<open>
  Concrete inputs on which the theorems below are instantiated: a package
  \<open>@tencent/tds-vue-plugin-foo\<close> at version 1.2.3, its manifest as parsed, an operator
  who confirms everything, and executors for three situations.
\<close>

definition sample_cfg :: config where
  "sample_cfg = \<lparr>args_target = None, isDryRun = False, skipBuild = False,
                  pkg_name = ''@tencent/tds-vue-plugin-foo'', currentVersion = ''1.2.3''\<rparr>"

definition sample_op :: operator where
  "sample_op = \<lparr>ans_release = Choose Patch, ans_version = None,
                 ans_tagBeta = Some True, ans_yes = Some True\<rparr>"

definition sample_pkg :: json where
  "sample_pkg = JObject [(''name'', JString ''@tencent/tds-vue-plugin-foo''),
                         (''version'', JString ''1.2.3''),
                         (''private'', JBool False),
                         (''files'', JArray [JString ''dist''])]"

definition sample_parse :: "string \<Rightarrow> error + json" where
  "sample_parse text = Inr sample_pkg"

definition sample_world :: world where
  "sample_world = \<lparr>manifest = ''{}'', args_tag = None, trace = []\<rparr>"

text \<open>Every command succeeds; \<open>git diff\<close> prints something.\<close>

definition exec_ok :: executor where
  "exec_ok bin args io = (if bin = ''git'' \<and> args = [S ''diff''] then Inr ''diff --git'' else Inr [])"

text \<open>The registry answers that the version exists already.\<close>

definition exec_published :: executor where
  "exec_published bin args io =
     (if bin = ''yarn''
      then Inl (ExecaError ''yarn publish'' (Some ''version 2.0.0 previously published''))
      else exec_ok bin args io)"

text \<open>The changelog command fails.\<close>

definition exec_changelog_fails :: executor where
  "exec_changelog_fails bin args io =
     (if bin = ''pnpm'' \<and> args = [S ''run'', S ''changelog'']
      then Inl (ExecaError ''pnpm run changelog'' None)
      else exec_ok bin args io)"

text \<open>A dry run of the same package, and an operator who declines at the end.\<close>

definition sample_dry_cfg :: config where
  "sample_dry_cfg = sample_cfg\<lparr>isDryRun := True\<rparr>"

definition sample_op_declines :: operator where
  "sample_op_declines = sample_op\<lparr>ans_yes := Some False\<rparr>"

section \<open>Properties of the script\<close>

subsection \<open>Evaluating on concrete inputs\<close>

lemmas semver_eval = valid_def SemVer_new_def strip_v_def version_parts_def main_char_def
  pre_char_def trim_def isSpace_def parse_main_def
  is_numeric_id_def isDigit_def isIdChar_def read_nat_def digit_val_def MAX_SAFE_INTEGER_def
  MAX_LENGTH_def format_def main_text_def show_nat.simps parse_prerelease_def parse_build_def
  is_prerelease_id_def is_build_id_def mk_ident_def semver_inc_def inc_pre_def inc_patch_def
  inc_minor_def inc_major_def bump_last_def compareIdentifiers_def Let_def

lemmas io_eval = return_def throw_def bind_def emit_def step_def run_def dryRun_def
  runIfNotDry_def

lemmas script_eval = script_def main_def askTargetVersion_def askBetaTag_def beta_question_def
  release_steps_def
  build_step_def commit_step_def push_step_def publishPackage_def publish_catch_def
  publicArgs_def updateVersion_def confirm_message_def tag_def choice_title_def choices_def
  inc_def exit_status_def catch_handler_def pkgName_def strip_prefix_def versionIncrements_def
  line_end_def JSON_stringify2_def QuoteJSONString_def quote_char_def

lemmas sample_eval = sample_cfg_def sample_op_def sample_pkg_def sample_parse_def
  sample_world_def exec_ok_def exec_published_def exec_changelog_fails_def

subsection \<open>Unfolding the helpers\<close>

lemma run_unfold:
  "run exec bin args opts w =
     (case exec bin args (case opts of None \<Rightarrow> Inherit | Some x \<Rightarrow> x) of
        Inl e \<Rightarrow>
          (Inl e, w\<lparr>trace := trace w
             @ [Exec bin args (case opts of None \<Rightarrow> Inherit | Some x \<Rightarrow> x)]\<rparr>)
      | Inr out \<Rightarrow>
          (Inr out, w\<lparr>trace := trace w
             @ [Exec bin args (case opts of None \<Rightarrow> Inherit | Some x \<Rightarrow> x)]\<rparr>))"
  by (simp add: run_def bind_def emit_def throw_def return_def Let_def split: sum.splits)

lemma publish_catch_unfold:
  "publish_catch cfg e w =
     (case stderr e of
        None \<Rightarrow> (Inl (TypeError ''Cannot read properties of undefined (reading match)''), w)
      | Some err \<Rightarrow>
          if str_includes err ''previously published''
          then (Inr (), w\<lparr>trace := trace w
                  @ [Log Red (''Skipping already published: '' @ pkgName cfg)]\<rparr>)
          else (Inl e, w))"
  by (simp add: publish_catch_def throw_def emit_def split: option.splits)

lemma publishPackage_real:
  "\<not> isDryRun cfg \<Longrightarrow>
   publishPackage cfg exec version w =
     (case exec ''yarn'' (publicArgs (args_tag w) version) Pipe of
        Inr out \<Rightarrow>
          (Inr (), w\<lparr>trace := trace w
             @ [Exec ''yarn'' (publicArgs (args_tag w) version) Pipe,
                Log Green (''Successfully published '' @ pkgName cfg @ ''@'' @ version)]\<rparr>)
      | Inl e \<Rightarrow>
          publish_catch cfg e
            (w\<lparr>trace := trace w @ [Exec ''yarn'' (publicArgs (args_tag w) version) Pipe]\<rparr>))"
  by (simp add: publishPackage_def runIfNotDry_def run_unfold bind_def return_def emit_def
      split: sum.splits)

lemma publishPackage_dry:
  "isDryRun cfg \<Longrightarrow>
   publishPackage cfg exec version w =
     (Inr (), w\<lparr>trace := trace w
        @ [LogWith Blue (''[dryrun] yarn '' @ join '' '' (map arg_string
                           (publicArgs (args_tag w) version))) (Some Pipe),
           Log Green (''Successfully published '' @ pkgName cfg @ ''@'' @ version)]\<rparr>)"
  by (simp add: publishPackage_def runIfNotDry_def dryRun_def bind_def emit_def)

subsection \<open>The release identifier\<close>

text \<open>
  C1. The claim wants the commit message, the git tag and the confirmation prompt to
  carry the release identifier, the package name joined to the target version. In the
  code \<open>tag\<close> is the result of comparing the package name with that identifier, which
  is false for every package and version: the prompt reads \<open>Releasing false\<close>, and in a
  run with a non-empty diff the commit message is \<open>release: false\<close> and the tag
  created is \<open>false\<close>.
\<close>

theorem tag_is_false:
  "tag cfg targetVersion = False
   \<and> confirm_message cfg targetVersion = ''Releasing false. Confirm?''
   \<and> filter (\<lambda>ev. case ev of Exec bin args io \<Rightarrow> bin = ''git'' | _ \<Rightarrow> False)
        (trace (snd (script sample_cfg sample_op exec_ok sample_parse sample_world)))
      = [Exec ''git'' [S ''diff''] Pipe,
         Exec ''git'' [S ''add'', S ''-A''] Inherit,
         Exec ''git'' [S ''commit'', S ''-m'', S ''release: false''] Inherit,
         Exec ''git'' [S ''tag'', B False] Inherit,
         Exec ''git'' [S ''push'', S ''origin'', S ''refs/tags/false''] Inherit,
         Exec ''git'' [S ''push''] Inherit]"
proof -
  have "tag cfg targetVersion = False"
    by (simp add: tag_def)
  moreover have "confirm_message cfg targetVersion = ''Releasing false. Confirm?''"
    by (simp add: confirm_message_def tag_def)
  moreover have
    "filter (\<lambda>ev. case ev of Exec bin args io \<Rightarrow> bin = ''git'' | _ \<Rightarrow> False)
        (trace (snd (script sample_cfg sample_op exec_ok sample_parse sample_world)))
      = [Exec ''git'' [S ''diff''] Pipe,
         Exec ''git'' [S ''add'', S ''-A''] Inherit,
         Exec ''git'' [S ''commit'', S ''-m'', S ''release: false''] Inherit,
         Exec ''git'' [S ''tag'', B False] Inherit,
         Exec ''git'' [S ''push'', S ''origin'', S ''refs/tags/false''] Inherit,
         Exec ''git'' [S ''push''] Inherit]"
    by (simp add: script_eval io_eval sample_eval semver_eval)
  ultimately show ?thesis by blast
qed

subsection \<open>Publishing\<close>

text \<open>
  C7. In a real run in which the publish command fails: when the error output contains
  \<open>previously published\<close>, \<open>publishPackage\<close> logs the skip and returns, and the push
  phase that follows it in \<open>release_steps\<close> runs from there; when the error output
  does not contain it, the error is thrown again and whatever would follow does not run.
\<close>

theorem publish_failure_handling:
  assumes "\<not> isDryRun cfg"
    and "exec ''yarn'' (publicArgs (args_tag w) version) Pipe = Inl e"
  shows "(\<forall>err. stderr e = Some err \<and> str_includes err ''previously published'' \<longrightarrow>
            bind (publishPackage cfg exec version) (\<lambda>_. push_step cfg exec tg) w
              = push_step cfg exec tg
                  (w\<lparr>trace := trace w
                     @ [Exec ''yarn'' (publicArgs (args_tag w) version) Pipe,
                        Log Red (''Skipping already published: '' @ pkgName cfg)]\<rparr>))
       \<and> (\<forall>err. stderr e = Some err \<and> \<not> str_includes err ''previously published'' \<longrightarrow>
            (\<forall>f. bind (publishPackage cfg exec version) f w
              = (Inl e, w\<lparr>trace := trace w
                   @ [Exec ''yarn'' (publicArgs (args_tag w) version) Pipe]\<rparr>)))"
  using assms by (simp add: publishPackage_real publish_catch_unfold bind_def)

theorem publish_failure_handling_witness:
  "bind (publishPackage sample_cfg exec_published ''2.0.0'')
        (\<lambda>_. push_step sample_cfg exec_published False) sample_world
     = push_step sample_cfg exec_published False
         (sample_world\<lparr>trace :=
            [Exec ''yarn'' [S ''publish'', S ''--no-git-tag-version'', S ''--new-version'',
                            S ''2.0.0'', S ''--access'', S ''public''] Pipe,
             Log Red ''Skipping already published: foo'']\<rparr>)
   \<and> drop 13 (trace (snd (script (sample_cfg\<lparr>args_target := Some ''2.0.0''\<rparr>) sample_op
                               exec_published sample_parse sample_world)))
     = [Exec ''yarn'' [S ''publish'', S ''--no-git-tag-version'', S ''--new-version'',
                       S ''2.0.0'', S ''--access'', S ''public''] Pipe,
        Log Red ''Skipping already published: foo'',
        Log Cyan ([CHR 0x0A] @ ''Pushing to GitHub...''),
        Exec ''git'' [S ''push'', S ''origin'', S ''refs/tags/false''] Inherit,
        Exec ''git'' [S ''push''] Inherit,
        Log Plain []]"
proof -
  have real: "\<not> isDryRun sample_cfg"
    by (simp add: sample_cfg_def)
  have fails: "exec_published ''yarn'' (publicArgs (args_tag sample_world) ''2.0.0'') Pipe
                 = Inl (ExecaError ''yarn publish'' (Some ''version 2.0.0 previously published''))"
    by (simp add: exec_published_def)
  have "bind (publishPackage sample_cfg exec_published ''2.0.0'')
          (\<lambda>_. push_step sample_cfg exec_published False) sample_world
        = push_step sample_cfg exec_published False
            (sample_world\<lparr>trace := trace sample_world
               @ [Exec ''yarn'' (publicArgs (args_tag sample_world) ''2.0.0'') Pipe,
                  Log Red (''Skipping already published: '' @ pkgName sample_cfg)]\<rparr>)"
    using publish_failure_handling [where cfg = sample_cfg and exec = exec_published
        and w = sample_world and version = "''2.0.0''" and tg = False, OF real fails]
    by simp
  moreover have
    "drop 13 (trace (snd (script (sample_cfg\<lparr>args_target := Some ''2.0.0''\<rparr>) sample_op
                               exec_published sample_parse sample_world)))
     = [Exec ''yarn'' [S ''publish'', S ''--no-git-tag-version'', S ''--new-version'',
                       S ''2.0.0'', S ''--access'', S ''public''] Pipe,
        Log Red ''Skipping already published: foo'',
        Log Cyan ([CHR 0x0A] @ ''Pushing to GitHub...''),
        Exec ''git'' [S ''push'', S ''origin'', S ''refs/tags/false''] Inherit,
        Exec ''git'' [S ''push''] Inherit,
        Log Plain []]"
    by (simp add: script_eval io_eval sample_eval semver_eval)
  ultimately show ?thesis
    by (simp add: sample_world_def sample_cfg_def publicArgs_def pkgName_def strip_prefix_def)
qed

text \<open>
  C10. The \<open>catch\<close> clause of \<open>publishPackage\<close> reads \<open>e.stderr\<close> unguarded. When the
  publish command of a real run fails with an error that carries \<open>stderr\<close>, the outcome
  is either the logged skip or the original error; when the error carries none, the
  outcome is the \<open>TypeError\<close> of the failed read, whatever the original error was.
\<close>

theorem publish_catch_unguarded:
  assumes "\<not> isDryRun cfg"
    and "exec ''yarn'' (publicArgs (args_tag w) version) Pipe = Inl e"
  shows "(\<forall>err. stderr e = Some err \<longrightarrow>
            publishPackage cfg exec version w
              = (Inr (), w\<lparr>trace := trace w
                   @ [Exec ''yarn'' (publicArgs (args_tag w) version) Pipe,
                      Log Red (''Skipping already published: '' @ pkgName cfg)]\<rparr>)
            \<or> publishPackage cfg exec version w
              = (Inl e, w\<lparr>trace := trace w
                   @ [Exec ''yarn'' (publicArgs (args_tag w) version) Pipe]\<rparr>))
       \<and> (stderr e = None \<longrightarrow>
            publishPackage cfg exec version w
              = (Inl (TypeError ''Cannot read properties of undefined (reading match)''),
                 w\<lparr>trace := trace w
                   @ [Exec ''yarn'' (publicArgs (args_tag w) version) Pipe]\<rparr>))"
  using assms by (simp add: publishPackage_real publish_catch_unfold)

theorem publish_catch_unguarded_witness:
  "publishPackage sample_cfg (\<lambda>bin args io. Inl (ExecaError ''yarn publish'' None))
       ''1.2.4'' sample_world
     = (Inl (TypeError ''Cannot read properties of undefined (reading match)''),
        sample_world\<lparr>trace :=
          [Exec ''yarn'' [S ''publish'', S ''--no-git-tag-version'', S ''--new-version'',
                          S ''1.2.4'', S ''--access'', S ''public''] Pipe]\<rparr>)"
proof -
  have real: "\<not> isDryRun sample_cfg"
    by (simp add: sample_cfg_def)
  have fails: "(\<lambda>bin args io. Inl (ExecaError ''yarn publish'' None))
                 ''yarn'' (publicArgs (args_tag sample_world) ''1.2.4'') Pipe
               = Inl (ExecaError ''yarn publish'' None)"
    by simp
  show ?thesis
    using publish_catch_unguarded [where cfg = sample_cfg and w = sample_world
        and exec = "\<lambda>bin args io. Inl (ExecaError ''yarn publish'' None)"
        and version = "''1.2.4''", OF real fails]
    by (simp add: sample_world_def publicArgs_def)
qed

subsection \<open>Failures end the run\<close>

lemma obeys_return: "obeys exec (return x)"
  by (simp add: obeys_def return_def orderly_def)

lemma obeys_throw: "obeys exec (throw e)"
  by (simp add: obeys_def throw_def orderly_def)

lemma obeys_emit: "\<not> failed exec ev \<Longrightarrow> obeys exec (emit ev)"
  by (simp add: obeys_def emit_def orderly_def)

lemma obeys_step: "obeys exec (step msg)"
  by (simp add: step_def obeys_emit)

lemma obeys_bind:
  assumes m: "obeys exec m" and f: "\<And>x. obeys exec (f x)"
  shows "obeys exec (bind m f)"
  unfolding obeys_def
proof
  fix w
  from m obtain evs1 where t1: "trace (snd (m w)) = trace w @ evs1"
    and o1: "orderly exec (fst (m w)) evs1"
    unfolding obeys_def by blast
  show "\<exists>evs. trace (snd (bind m f w)) = trace w @ evs \<and> orderly exec (fst (bind m f w)) evs"
  proof (cases "m w")
    case (Pair r w1)
    show ?thesis
    proof (cases r)
      case (Inl e)
      with Pair t1 o1 show ?thesis
        by (auto simp: bind_def orderly_def)
    next
      case (Inr x)
      from f obtain evs2 where t2: "trace (snd (f x w1)) = trace w1 @ evs2"
        and o2: "orderly exec (fst (f x w1)) evs2"
        unfolding obeys_def by blast
      have all1: "list_all (\<lambda>ev. \<not> failed exec ev) evs1"
        using o1 Pair Inr by (simp add: orderly_def)
      have "orderly exec (fst (f x w1)) (evs1 @ evs2)"
        using o2 all1 by (cases "fst (f x w1)"; cases "evs2 = []")
          (auto simp: orderly_def butlast_append list_all_iff dest: in_set_butlastD)
      with Pair Inr t1 t2 show ?thesis
        by (intro exI [of _ "evs1 @ evs2"]) (simp add: bind_def)
    qed
  qed
qed

lemma obeys_run: "bin \<noteq> ''yarn'' \<Longrightarrow> obeys exec (run exec bin args opts)"
  by (auto simp: obeys_def run_def bind_def emit_def throw_def return_def orderly_def Let_def tolerated_def
      split: sum.splits)

lemma obeys_dryRun: "obeys exec (dryRun bin args opts)"
  by (simp add: dryRun_def obeys_emit)

lemma obeys_runIfNotDry: "bin \<noteq> ''yarn'' \<Longrightarrow> obeys exec (runIfNotDry cfg exec bin args opts)"
  by (simp add: runIfNotDry_def obeys_dryRun obeys_bind obeys_run obeys_return)

lemma obeys_updateVersion: "obeys exec (updateVersion JSON_parse version)"
  by (auto simp: obeys_def updateVersion_def orderly_def split: sum.splits)

lemma obeys_askBetaTag: "obeys exec (askBetaTag op targetVersion)"
  by (auto simp: obeys_def askBetaTag_def orderly_def bind_def emit_def)

lemma obeys_askTargetVersion: "obeys exec (askTargetVersion cfg op)"
  by (auto simp: askTargetVersion_def intro!: obeys_bind obeys_emit obeys_return obeys_throw
      split: select_answer.splits option.splits)

lemma obeys_build_step: "obeys exec (build_step cfg exec)"
  by (auto simp: build_step_def intro!: obeys_bind obeys_emit obeys_return obeys_step obeys_run)

lemma obeys_commit_step: "obeys exec (commit_step cfg exec tg)"
  by (auto simp: commit_step_def intro!: obeys_bind obeys_emit obeys_return obeys_step obeys_run obeys_runIfNotDry)

lemma obeys_push_step: "obeys exec (push_step cfg exec tg)"
  by (auto simp: push_step_def intro!: obeys_bind obeys_emit obeys_return obeys_step obeys_run obeys_runIfNotDry)


lemma obeys_publishPackage: "obeys exec (publishPackage cfg exec version)"
proof (cases "isDryRun cfg")
  case True
  then show ?thesis
    by (simp add: obeys_def publishPackage_def runIfNotDry_def dryRun_def bind_def emit_def
        orderly_def)
next
  case False
  then show ?thesis
    by (auto simp: obeys_def publishPackage_def runIfNotDry_def run_def bind_def emit_def
        throw_def return_def publish_catch_def orderly_def tolerated_def Let_def
        split: sum.splits option.splits)
qed

lemma obeys_release_steps: "obeys exec (release_steps cfg exec JSON_parse targetVersion)"
  unfolding release_steps_def
  by (intro obeys_bind obeys_step obeys_updateVersion obeys_build_step obeys_commit_step
      obeys_publishPackage obeys_push_step)

lemma obeys_main: "obeys exec (main cfg op exec JSON_parse)"
  unfolding main_def
  by (intro obeys_bind obeys_askTargetVersion)
    (auto intro!: obeys_bind obeys_throw obeys_return obeys_emit obeys_askBetaTag
      obeys_release_steps split: option.splits)

lemma script_exit_zero: "fst (script cfg op exec JSON_parse w) = 0"
  by (simp add: script_def exit_status_def catch_handler_def emit_def split: prod.splits sum.splits)

lemma script_trace_error:
  "fst (main cfg op exec JSON_parse w) = Inl err \<Longrightarrow>
   trace (snd (script cfg op exec JSON_parse w))
     = trace (snd (main cfg op exec JSON_parse w)) @ [LogError err]"
  by (cases "main cfg op exec JSON_parse w") (simp add: script_def catch_handler_def emit_def)

text \<open>
  C2, as the code has it. The exit status is 0 in every run: the handler attached to
  \<open>main()\<close> prints the error and returns. What a failed invocation (other than the
  tolerated publish failure) does cause: \<open>main\<close> throws the error that invocation
  raises, the invocation is the last event of \<open>main\<close>, so no later phase runs, and the
  handler prints the error.
\<close>

theorem failure_is_printed_exit_zero:
  assumes fresh: "trace w = []"
  shows "fst (script cfg op exec JSON_parse w) = 0
     \<and> (\<forall>ev \<in> set (trace (snd (main cfg op exec JSON_parse w))).
          failed exec ev \<longrightarrow>
            (\<exists>err. fst (main cfg op exec JSON_parse w) = Inl err
               \<and> thrown exec ev err
               \<and> last (trace (snd (main cfg op exec JSON_parse w))) = ev
               \<and> trace (snd (script cfg op exec JSON_parse w))
                   = trace (snd (main cfg op exec JSON_parse w)) @ [LogError err]))"
proof (intro conjI ballI impI)
  show "fst (script cfg op exec JSON_parse w) = 0"
    by (rule script_exit_zero)
next
  fix ev
  assume mem: "ev \<in> set (trace (snd (main cfg op exec JSON_parse w)))"
    and bad: "failed exec ev"
  from obeys_main [of exec cfg op JSON_parse] fresh
  obtain evs where tr: "trace (snd (main cfg op exec JSON_parse w)) = evs"
    and ord: "orderly exec (fst (main cfg op exec JSON_parse w)) evs"
    unfolding obeys_def by (metis append_Nil)
  from mem tr have mem': "ev \<in> set evs" by simp
  show "\<exists>err. fst (main cfg op exec JSON_parse w) = Inl err
           \<and> thrown exec ev err
           \<and> last (trace (snd (main cfg op exec JSON_parse w))) = ev
           \<and> trace (snd (script cfg op exec JSON_parse w))
               = trace (snd (main cfg op exec JSON_parse w)) @ [LogError err]"
  proof (cases "fst (main cfg op exec JSON_parse w)")
    case (Inr u)
    with ord mem' bad show ?thesis
      by (auto simp: orderly_def list_all_iff)
  next
    case (Inl err)
    from mem' have ne: "evs \<noteq> []" by auto
    from ord Inl have front: "list_all (\<lambda>ev. \<not> failed exec ev) (butlast evs)"
      and at_end: "failed exec (last evs) \<Longrightarrow> thrown exec (last evs) err"
      using ne by (auto simp: orderly_def)
    have "ev = last evs"
    proof (rule ccontr)
      assume "ev \<noteq> last evs"
      with mem' ne have "ev \<in> set (butlast evs)"
        by (metis append_butlast_last_id Un_iff empty_iff insert_iff list.set(1) list.set(2) set_append)
      with front bad show False by (simp add: list_all_iff)
    qed
    with bad at_end Inl tr script_trace_error [OF Inl] show ?thesis by simp
  qed
qed

theorem failure_is_printed_exit_zero_witness:
  "fst (script sample_cfg sample_op exec_changelog_fails sample_parse sample_world) = 0
   \<and> fst (main sample_cfg sample_op exec_changelog_fails sample_parse sample_world)
       = Inl (ExecaError ''pnpm run changelog'' None)
   \<and> last (trace (snd (main sample_cfg sample_op exec_changelog_fails sample_parse sample_world)))
       = Exec ''pnpm'' [S ''run'', S ''changelog''] Inherit
   \<and> last (trace (snd (script sample_cfg sample_op exec_changelog_fails sample_parse sample_world)))
       = LogError (ExecaError ''pnpm run changelog'' None)"
proof -
  have fresh: "trace sample_world = []"
    by (simp add: sample_world_def)
  have tr: "trace (snd (main sample_cfg sample_op exec_changelog_fails sample_parse sample_world))
          = take 7 (trace (snd (main sample_cfg sample_op exec_changelog_fails sample_parse sample_world)))
            @ [Exec ''pnpm'' [S ''run'', S ''changelog''] Inherit]"
    by (simp add: script_eval io_eval sample_eval semver_eval)
  have mem: "Exec ''pnpm'' [S ''run'', S ''changelog''] Inherit
          \<in> set (trace (snd (main sample_cfg sample_op exec_changelog_fails sample_parse sample_world)))"
    by (subst tr) simp
  have bad: "failed exec_changelog_fails (Exec ''pnpm'' [S ''run'', S ''changelog''] Inherit)"
    by (simp add: exec_changelog_fails_def tolerated_def)
  from failure_is_printed_exit_zero [OF fresh, of sample_cfg sample_op exec_changelog_fails sample_parse] mem bad
  show ?thesis
    by (auto simp: exec_changelog_fails_def)
qed

text \<open>
  C2 as stated fails: a run whose changelog command fails ends with exit status 0.
\<close>

theorem exit_status_counterexample:
  "\<not> (\<forall>cfg op exec JSON_parse w.
        (\<exists>ev \<in> set (trace (snd (main cfg op exec JSON_parse w))). failed exec ev)
        \<longrightarrow> fst (script cfg op exec JSON_parse w) \<noteq> 0)"
proof
  assume claim: "\<forall>cfg op exec JSON_parse w.
        (\<exists>ev \<in> set (trace (snd (main cfg op exec JSON_parse w))). failed exec ev)
        \<longrightarrow> fst (script cfg op exec JSON_parse w) \<noteq> 0"
  have tr: "trace (snd (main sample_cfg sample_op exec_changelog_fails sample_parse sample_world))
          = take 7 (trace (snd (main sample_cfg sample_op exec_changelog_fails sample_parse sample_world)))
            @ [Exec ''pnpm'' [S ''run'', S ''changelog''] Inherit]"
    by (simp add: script_eval io_eval sample_eval semver_eval)
  have mem: "Exec ''pnpm'' [S ''run'', S ''changelog''] Inherit
          \<in> set (trace (snd (main sample_cfg sample_op exec_changelog_fails sample_parse sample_world)))"
    by (subst tr) simp
  have bad: "failed exec_changelog_fails (Exec ''pnpm'' [S ''run'', S ''changelog''] Inherit)"
    by (simp add: exec_changelog_fails_def tolerated_def)
  from claim mem bad
  have "fst (script sample_cfg sample_op exec_changelog_fails sample_parse sample_world) \<noteq> 0"
    by blast
  moreover have "fst (script sample_cfg sample_op exec_changelog_fails sample_parse sample_world) = 0"
    by (simp add: script_def exit_status_def catch_handler_def emit_def split: prod.splits sum.splits)
  ultimately show False by simp
qed

subsection \<open>Frame rules\<close>

lemma emits_return: "emits P (return x)"
  by (simp add: emits_def return_def)

lemma emits_throw: "emits P (throw e)"
  by (simp add: emits_def throw_def)

lemma emits_emit: "P ev \<Longrightarrow> emits P (emit ev)"
  by (simp add: emits_def emit_def)

lemma emits_bind:
  assumes m: "emits P m" and f: "\<And>x. emits P (f x)"
  shows "emits P (bind m f)"
  unfolding emits_def
proof
  fix w
  from m obtain evs1 where t1: "trace (snd (m w)) = trace w @ evs1" and p1: "list_all P evs1"
    unfolding emits_def by blast
  show "\<exists>evs. trace (snd (bind m f w)) = trace w @ evs \<and> list_all P evs"
  proof (cases "m w")
    case (Pair r w1)
    show ?thesis
    proof (cases r)
      case (Inl e)
      with Pair t1 p1 show ?thesis by (auto simp: bind_def)
    next
      case (Inr x)
      from f obtain evs2 where "trace (snd (f x w1)) = trace w1 @ evs2" and "list_all P evs2"
        unfolding emits_def by blast
      with Pair Inr t1 p1 show ?thesis
        by (intro exI [of _ "evs1 @ evs2"]) (simp add: bind_def)
    qed
  qed
qed

lemma emits_run: "P (Exec bin args (case opts of None \<Rightarrow> Inherit | Some x \<Rightarrow> x)) \<Longrightarrow> emits P (run exec bin args opts)"
  unfolding run_def Let_def
  by (intro emits_bind emits_emit) (auto intro: emits_throw emits_return split: sum.splits)

lemma emits_askTargetVersion: "emits is_prompt (askTargetVersion cfg op)"
  unfolding askTargetVersion_def
  by (auto intro!: emits_bind emits_emit emits_return emits_throw split: select_answer.splits option.splits)

lemma emits_askBetaTag: "emits is_prompt (askBetaTag op targetVersion)"
  by (simp add: emits_def askBetaTag_def bind_def emit_def)

lemma emits_mono: "emits P m \<Longrightarrow> (\<And>ev. P ev \<Longrightarrow> Q ev) \<Longrightarrow> emits Q m"
  unfolding emits_def list_all_iff by blast

lemma dry_event_prompt: "is_prompt ev \<Longrightarrow> dry_event ev"
  by (cases ev) simp_all

lemma emits_dry_runIfNotDry: "isDryRun cfg \<Longrightarrow> emits dry_event (runIfNotDry cfg exec bin args opts)"
  by (simp add: runIfNotDry_def dryRun_def emits_emit)

lemma emits_dry_updateVersion: "emits dry_event (updateVersion JSON_parse version)"
  by (auto simp: emits_def updateVersion_def split: sum.splits)

lemma emits_dry_build_step: "isDryRun cfg \<Longrightarrow> emits dry_event (build_step cfg exec)"
  by (simp add: build_step_def step_def emits_bind emits_emit)

lemma emits_dry_commit_step: "isDryRun cfg \<Longrightarrow> emits dry_event (commit_step cfg exec tg)"
  unfolding commit_step_def step_def
  by (intro emits_bind emits_emit emits_run) (auto intro!: emits_bind emits_emit emits_dry_runIfNotDry)

lemma emits_dry_publishPackage: "isDryRun cfg \<Longrightarrow> emits dry_event (publishPackage cfg exec version)"
  by (simp add: emits_def publishPackage_dry)

lemma emits_dry_push_step: "isDryRun cfg \<Longrightarrow> emits dry_event (push_step cfg exec tg)"
  unfolding push_step_def step_def
  by (intro emits_bind emits_emit emits_dry_runIfNotDry) (auto intro!: emits_emit)

lemma emits_dry_release_steps:
  "isDryRun cfg \<Longrightarrow> emits dry_event (release_steps cfg exec JSON_parse targetVersion)"
  unfolding release_steps_def step_def
  by (intro emits_bind emits_emit emits_dry_updateVersion emits_dry_build_step
      emits_dry_commit_step emits_dry_publishPackage emits_dry_push_step) auto

lemma emits_dry_main: "isDryRun cfg \<Longrightarrow> emits dry_event (main cfg op exec JSON_parse)"
  unfolding main_def
  by (intro emits_bind emits_mono [OF emits_askTargetVersion] dry_event_prompt)
    (auto intro!: emits_bind emits_throw emits_return emits_emit emits_dry_release_steps
       emits_mono [OF emits_askBetaTag] dry_event_prompt split: option.splits)

lemma emits_declined_main:
  "\<not> truthy_bool (ans_yes op) \<Longrightarrow> emits is_prompt (main cfg op exec JSON_parse)"
  unfolding main_def
  by (intro emits_bind emits_askTargetVersion)
    (auto intro!: emits_bind emits_throw emits_return emits_emit emits_askBetaTag
       split: option.splits)


lemma keeps_return: "keeps_manifest (return x)"
  by (simp add: keeps_manifest_def return_def)

lemma keeps_throw: "keeps_manifest (throw e)"
  by (simp add: keeps_manifest_def throw_def)

lemma keeps_emit: "keeps_manifest (emit ev)"
  by (simp add: keeps_manifest_def emit_def)

lemma keeps_bind:
  assumes m: "keeps_manifest m" and f: "\<And>x. keeps_manifest (f x)"
  shows "keeps_manifest (bind m f)"
  unfolding keeps_manifest_def
proof
  fix w
  obtain r w1 where mw: "m w = (r, w1)" by (cases "m w")
  from m mw have same: "manifest w1 = manifest w"
    unfolding keeps_manifest_def by (metis snd_conv)
  show "manifest (snd (bind m f w)) = manifest w"
  proof (cases r)
    case (Inl e)
    with mw same show ?thesis by (simp add: bind_def)
  next
    case (Inr x)
    from f have "manifest (snd (f x w1)) = manifest w1"
      unfolding keeps_manifest_def by blast
    with mw Inr same show ?thesis by (simp add: bind_def)
  qed
qed



lemma keeps_askTargetVersion: "keeps_manifest (askTargetVersion cfg op)"
  unfolding askTargetVersion_def
  by (auto intro!: keeps_bind keeps_emit keeps_return keeps_throw split: select_answer.splits option.splits)

lemma keeps_askBetaTag: "keeps_manifest (askBetaTag op targetVersion)"
  by (simp add: keeps_manifest_def askBetaTag_def bind_def emit_def)










subsection \<open>Declining the confirmation\<close>

text \<open>
  C6. When the operator does not answer yes to the final confirmation, the manifest is
  as it was, everything \<open>main\<close> added to the trace is a prompt (no process is invoked,
  no file written), \<open>main\<close> returns without an error whenever it got as far as the
  confirmation (the target version was resolved and is valid), and the exit status
  is 0.
\<close>

theorem declined_confirmation:
  assumes declined: "\<not> truthy_bool (ans_yes op)"
  shows "manifest (snd (main cfg op exec JSON_parse w)) = manifest w
     \<and> (\<exists>evs. trace (snd (main cfg op exec JSON_parse w)) = trace w @ evs
               \<and> list_all is_prompt evs)
     \<and> (\<forall>tv w1. askTargetVersion cfg op w = (Inr (Some tv), w1) \<and> valid (Some tv) \<noteq> None
          \<longrightarrow> fst (main cfg op exec JSON_parse w) = Inr ())
     \<and> fst (script cfg op exec JSON_parse w) = 0"
proof (intro conjI allI impI)
  have "keeps_manifest (main cfg op exec JSON_parse)"
    unfolding main_def using declined
    by (intro keeps_bind keeps_askTargetVersion)
      (auto intro!: keeps_bind keeps_throw keeps_return keeps_emit keeps_askBetaTag
         split: option.splits)
  then show "manifest (snd (main cfg op exec JSON_parse w)) = manifest w"
    unfolding keeps_manifest_def by blast
next
  from emits_declined_main [OF declined]
  show "\<exists>evs. trace (snd (main cfg op exec JSON_parse w)) = trace w @ evs
               \<and> list_all is_prompt evs"
    unfolding emits_def by blast
next
  fix tv w1
  assume "askTargetVersion cfg op w = (Inr (Some tv), w1) \<and> valid (Some tv) \<noteq> None"
  with declined show "fst (main cfg op exec JSON_parse w) = Inr ()"
    by (auto simp: main_def bind_def askBetaTag_def emit_def return_def)
next
  show "fst (script cfg op exec JSON_parse w) = 0"
    by (rule script_exit_zero)
qed

subsection \<open>The manifest is written in every mode\<close>



subsection \<open>Dry runs\<close>

text \<open>
  C5. In dry-run mode the only processes \<open>main\<close> invokes are the changelog command and
  \<open>git diff\<close>. When both succeed, \<open>release_steps\<close> adds exactly the events listed: the
  build is replaced by the notice \<open>(skipped)\<close>, and \<open>git add\<close>, \<open>git commit\<close>,
  \<open>git tag\<close>, the publish and the two pushes are each replaced by a log line
  \<open>[dryrun]\<close> with the command and its arguments. The build is skipped exactly when
  \<open>skipBuild\<close> or \<open>isDryRun\<close> is set.
\<close>

theorem dry_run_commands:
  "(isDryRun cfg \<longrightarrow>
      (\<exists>evs. trace (snd (main cfg op exec JSON_parse w)) = trace w @ evs
             \<and> list_all dry_event evs))
   \<and> (isDryRun cfg \<and> JSON_parse (manifest w) = Inr pkg \<and> set_version pkg tv = Inr pkg'
        \<and> exec ''pnpm'' [S ''run'', S ''changelog''] Inherit = Inr out1
        \<and> exec ''git'' [S ''diff''] Pipe = Inr out \<longrightarrow>
      trace (snd (release_steps cfg exec JSON_parse tv w))
        = trace w
          @ [Log Cyan ([CHR 0x0A] @ ''Updating package version...''),
             WriteFile (JSON_stringify2 pkg' @ [CHR 0x0A]),
             Log Cyan ([CHR 0x0A] @ ''Building package...''),
             Log Plain ''(skipped)'',
             Log Cyan ([CHR 0x0A] @ ''Generating changelog...''),
             Exec ''pnpm'' [S ''run'', S ''changelog''] Inherit,
             Exec ''git'' [S ''diff''] Pipe]
          @ (if out \<noteq> []
             then [Log Cyan ([CHR 0x0A] @ ''Committing changes...''),
                   LogWith Blue ''[dryrun] git add -A'' None,
                   LogWith Blue ''[dryrun] git commit -m release: false'' None,
                   LogWith Blue ''[dryrun] git tag false'' None]
             else [Log Plain ''No changes to commit.''])
          @ [Log Cyan ([CHR 0x0A] @ ''Publishing package...''),
             LogWith Blue (''[dryrun] yarn ''
                @ join '' '' (map arg_string (publicArgs (args_tag w) tv))) (Some Pipe),
             Log Green (''Successfully published '' @ pkgName cfg @ ''@'' @ tv),
             Log Cyan ([CHR 0x0A] @ ''Pushing to GitHub...''),
             LogWith Blue ''[dryrun] git push origin refs/tags/false'' None,
             LogWith Blue ''[dryrun] git push'' None,
             Log Plain ([CHR 0x0A] @ ''Dry run finished - run git diff to see package changes.''),
             Log Plain []])
   \<and> ((skipBuild cfg \<or> isDryRun cfg)
        = (build_step cfg exec w
            = (Inr (), w\<lparr>trace := trace w
                 @ [Log Cyan ([CHR 0x0A] @ ''Building package...''), Log Plain ''(skipped)'']\<rparr>)))"
proof (intro conjI impI)
  assume "isDryRun cfg"
  from emits_dry_main [OF this]
  show "\<exists>evs. trace (snd (main cfg op exec JSON_parse w)) = trace w @ evs
             \<and> list_all dry_event evs"
    unfolding emits_def by blast
next
  assume "isDryRun cfg \<and> JSON_parse (manifest w) = Inr pkg \<and> set_version pkg tv = Inr pkg'
        \<and> exec ''pnpm'' [S ''run'', S ''changelog''] Inherit = Inr out1
        \<and> exec ''git'' [S ''diff''] Pipe = Inr out"
  then show "trace (snd (release_steps cfg exec JSON_parse tv w))
        = trace w
          @ [Log Cyan ([CHR 0x0A] @ ''Updating package version...''),
             WriteFile (JSON_stringify2 pkg' @ [CHR 0x0A]),
             Log Cyan ([CHR 0x0A] @ ''Building package...''),
             Log Plain ''(skipped)'',
             Log Cyan ([CHR 0x0A] @ ''Generating changelog...''),
             Exec ''pnpm'' [S ''run'', S ''changelog''] Inherit,
             Exec ''git'' [S ''diff''] Pipe]
          @ (if out \<noteq> []
             then [Log Cyan ([CHR 0x0A] @ ''Committing changes...''),
                   LogWith Blue ''[dryrun] git add -A'' None,
                   LogWith Blue ''[dryrun] git commit -m release: false'' None,
                   LogWith Blue ''[dryrun] git tag false'' None]
             else [Log Plain ''No changes to commit.''])
          @ [Log Cyan ([CHR 0x0A] @ ''Publishing package...''),
             LogWith Blue (''[dryrun] yarn ''
                @ join '' '' (map arg_string (publicArgs (args_tag w) tv))) (Some Pipe),
             Log Green (''Successfully published '' @ pkgName cfg @ ''@'' @ tv),
             Log Cyan ([CHR 0x0A] @ ''Pushing to GitHub...''),
             LogWith Blue ''[dryrun] git push origin refs/tags/false'' None,
             LogWith Blue ''[dryrun] git push'' None,
             Log Plain ([CHR 0x0A] @ ''Dry run finished - run git diff to see package changes.''),
             Log Plain []]"
    by (simp add: release_steps_def build_step_def commit_step_def push_step_def
        publishPackage_dry updateVersion_def runIfNotDry_def dryRun_def run_unfold step_def
        bind_def emit_def return_def tag_def)
next
  show "(skipBuild cfg \<or> isDryRun cfg)
        = (build_step cfg exec w
            = (Inr (), w\<lparr>trace := trace w
                 @ [Log Cyan ([CHR 0x0A] @ ''Building package...''), Log Plain ''(skipped)'']\<rparr>))"
  proof (cases "skipBuild cfg \<or> isDryRun cfg")
    case True
    then show ?thesis
      by (auto simp: build_step_def step_def bind_def emit_def)
  next
    case False
    have "trace (snd (build_step cfg exec w))
            = trace w @ [Log Cyan ([CHR 0x0A] @ ''Building package...''),
                         Exec ''pnpm'' [S ''run'', S ''build''] Inherit]"
      using False
      by (simp add: build_step_def step_def bind_def emit_def run_unfold return_def
          split: sum.splits)
    then have "build_step cfg exec w
            \<noteq> (Inr (), w\<lparr>trace := trace w
                 @ [Log Cyan ([CHR 0x0A] @ ''Building package...''), Log Plain ''(skipped)'']\<rparr>)"
      by auto
    with False show ?thesis by simp
  qed
qed


lemma sample_target:
  "ans_release op' = Choose Patch \<Longrightarrow> currentVersion cfg' = ''1.2.3''
   \<Longrightarrow> \<not> truthy (args_target cfg') \<Longrightarrow>
   askTargetVersion cfg' op' w'
     = (Inr (Some ''1.2.4''),
        w'\<lparr>trace := trace w' @ [PromptSelect ''Select release type'' (choices cfg')]\<rparr>)"
  by (simp add: askTargetVersion_def choice_title_def inc_def io_eval line_end_def semver_eval)

theorem declined_confirmation_witness:
  "manifest (snd (main sample_cfg sample_op_declines exec_ok sample_parse sample_world)) = ''{}''
   \<and> fst (main sample_cfg sample_op_declines exec_ok sample_parse sample_world) = Inr ()
   \<and> fst (script sample_cfg sample_op_declines exec_ok sample_parse sample_world) = 0
   \<and> trace (snd (main sample_cfg sample_op_declines exec_ok sample_parse sample_world))
       = [PromptSelect ''Select release type''
            [''patch (1.2.4)'', ''minor (1.3.0)'', ''major (2.0.0)'',
             ''prepatch (1.2.4-beta.0)'', ''preminor (1.3.0-beta.0)'',
             ''premajor (2.0.0-beta.0)'', ''prerelease (1.2.4-beta.0)'', ''custom''],
          PromptConfirm ''Releasing false. Confirm?'']"
proof -
  have declined: "\<not> truthy_bool (ans_yes sample_op_declines)"
    by (simp add: sample_op_declines_def sample_op_def)
  have target: "askTargetVersion sample_cfg sample_op_declines sample_world
      = (Inr (Some ''1.2.4''),
         sample_world\<lparr>trace := [PromptSelect ''Select release type'' (choices sample_cfg)]\<rparr>)"
    by (subst sample_target) (simp_all add: sample_op_declines_def sample_op_def sample_cfg_def
        sample_world_def)
  have ok: "valid (Some ''1.2.4'') \<noteq> None"
    by (simp add: semver_eval)
  have tr: "trace (snd (main sample_cfg sample_op_declines exec_ok sample_parse sample_world))
       = [PromptSelect ''Select release type''
            [''patch (1.2.4)'', ''minor (1.3.0)'', ''major (2.0.0)'',
             ''prepatch (1.2.4-beta.0)'', ''preminor (1.3.0-beta.0)'',
             ''premajor (2.0.0-beta.0)'', ''prerelease (1.2.4-beta.0)'', ''custom''],
          PromptConfirm ''Releasing false. Confirm?'']"
    by (simp add: script_eval io_eval sample_eval sample_op_declines_def semver_eval)
  from declined_confirmation [OF declined, of sample_cfg exec_ok sample_parse sample_world]
    target ok tr
  show ?thesis
    by (simp add: sample_world_def)
qed


theorem dry_run_commands_witness:
  "list_all dry_event (trace (snd (main sample_dry_cfg sample_op exec_ok sample_parse sample_world)))
   \<and> filter (\<lambda>ev. case ev of Exec bin args io \<Rightarrow> True | _ \<Rightarrow> False)
        (trace (snd (release_steps sample_dry_cfg exec_ok sample_parse ''1.2.4'' sample_world)))
       = [Exec ''pnpm'' [S ''run'', S ''changelog''] Inherit, Exec ''git'' [S ''diff''] Pipe]
   \<and> filter (\<lambda>ev. case ev of LogWith c m opts \<Rightarrow> True | _ \<Rightarrow> False)
        (trace (snd (release_steps sample_dry_cfg exec_ok sample_parse ''1.2.4'' sample_world)))
       = [LogWith Blue ''[dryrun] git add -A'' None,
          LogWith Blue ''[dryrun] git commit -m release: false'' None,
          LogWith Blue ''[dryrun] git tag false'' None,
          LogWith Blue ''[dryrun] yarn publish --no-git-tag-version --new-version 1.2.4 --access public''
            (Some Pipe),
          LogWith Blue ''[dryrun] git push origin refs/tags/false'' None,
          LogWith Blue ''[dryrun] git push'' None]
   \<and> build_step sample_dry_cfg exec_ok sample_world
       = (Inr (), sample_world\<lparr>trace :=
            [Log Cyan ([CHR 0x0A] @ ''Building package...''), Log Plain ''(skipped)'']\<rparr>)"
proof -
  have dry: "isDryRun sample_dry_cfg"
    by (simp add: sample_dry_cfg_def)
  have pre: "isDryRun sample_dry_cfg
      \<and> sample_parse (manifest sample_world) = Inr sample_pkg
      \<and> set_version sample_pkg ''1.2.4''
          = Inr (JObject (put_prop ''version'' (JString ''1.2.4'')
                   [(''name'', JString ''@tencent/tds-vue-plugin-foo''),
                    (''version'', JString ''1.2.3''),
                    (''private'', JBool False),
                    (''files'', JArray [JString ''dist''])]))
      \<and> exec_ok ''pnpm'' [S ''run'', S ''changelog''] Inherit = Inr []
      \<and> exec_ok ''git'' [S ''diff''] Pipe = Inr ''diff --git''"
    by (simp add: sample_dry_cfg_def sample_parse_def sample_pkg_def exec_ok_def)
  from dry_run_commands [of sample_dry_cfg sample_op exec_ok sample_parse sample_world
      sample_pkg "''1.2.4''" _ "[]" "''diff --git''"] dry pre
  show ?thesis
    by (simp add: sample_world_def publicArgs_def)
qed



subsection \<open>Rewriting the manifest\<close>





lemma get_put_prop_other: "k \<noteq> key \<Longrightarrow> get_prop k (put_prop key v ps) = get_prop k ps"
  by (induction ps) auto





section \<open>Properties of the semver model\<close>

subsection \<open>Numbers and their digits\<close>

lemma less_10_cases:
  "(d::nat) < 10 \<Longrightarrow> d = 0 \<or> d = 1 \<or> d = 2 \<or> d = 3 \<or> d = 4 \<or> d = 5 \<or> d = 6 \<or> d = 7 \<or> d = 8 \<or> d = 9"
  by arith

lemma digit_char_isDigit: "d < 10 \<Longrightarrow> isDigit (''0123456789'' ! d)"
  by (auto dest!: less_10_cases simp: isDigit_def)

lemma digit_char_val: "d < 10 \<Longrightarrow> digit_val (''0123456789'' ! d) = d"
  by (auto dest!: less_10_cases simp: digit_val_def)

lemma digit_char_zero: "d < 10 \<Longrightarrow> ''0123456789'' ! d = CHR ''0'' \<Longrightarrow> d = 0"
  by (auto dest!: less_10_cases)

lemma show_nat_nonempty: "show_nat n \<noteq> []"
  by (subst show_nat.simps) simp

lemma show_nat_digits: "list_all isDigit (show_nat n)"
proof (induction n rule: show_nat.induct)
  case (1 n)
  show ?case
  proof (cases "n < 10")
    case True
    then show ?thesis
      by (subst show_nat.simps) (simp add: digit_char_isDigit)
  next
    case False
    with 1 show ?thesis
      by (subst show_nat.simps) (simp add: digit_char_isDigit)
  qed
qed

lemma read_nat_snoc: "read_nat (xs @ [c]) = 10 * read_nat xs + digit_val c"
  by (simp add: read_nat_def)

lemma read_show_nat: "read_nat (show_nat n) = n"
proof (induction n rule: show_nat.induct)
  case (1 n)
  show ?case
  proof (cases "n < 10")
    case True
    then show ?thesis
      by (subst show_nat.simps) (simp add: read_nat_def digit_char_val)
  next
    case False
    with 1 have "read_nat (show_nat (n div 10)) = n div 10" by simp
    with False show ?thesis
      by (subst show_nat.simps) (simp add: read_nat_snoc digit_char_val)
  qed
qed

lemma show_nat_hd:
  "hd (show_nat n) = CHR ''0'' \<Longrightarrow> show_nat n = ''0''"
proof (induction n rule: show_nat.induct)
  case (1 n)
  show ?case
  proof (cases "n < 10")
    case True
    with "1.prems" have "n = 0"
      by (subst (asm) show_nat.simps) (auto dest: digit_char_zero)
    then show ?thesis by (simp add: show_nat.simps)
  next
    case False
    then have unfold: "show_nat n = show_nat (n div 10) @ [''0123456789'' ! (n mod 10)]"
      by (subst show_nat.simps) simp
    with "1.prems" have "hd (show_nat (n div 10)) = CHR ''0''"
      by (simp add: show_nat_nonempty)
    with 1 False have "show_nat (n div 10) = ''0''" by simp
    then have "read_nat (show_nat (n div 10)) = 0" by (simp add: read_nat_def digit_val_def)
    then have "n div 10 = 0" by (simp add: read_show_nat)
    with False show ?thesis by simp
  qed
qed

lemma length_show_nat: "n < 10 ^ k \<Longrightarrow> 0 < k \<Longrightarrow> length (show_nat n) \<le> k"
proof (induction n arbitrary: k rule: show_nat.induct)
  case (1 n)
  show ?case
  proof (cases "n < 10")
    case True
    with "1.prems" show ?thesis
      by (subst show_nat.simps) simp
  next
    case False
    from "1.prems" False obtain j where k: "k = Suc j" and j: "0 < j"
      by (cases k; cases "k - 1") auto
    from "1.prems" k have "n div 10 < 10 ^ j"
      by (simp add: less_mult_imp_div_less mult.commute)
    with 1 False j have "length (show_nat (n div 10)) \<le> j" by simp
    with False k show ?thesis
      by (subst show_nat.simps) simp
  qed
qed

lemma show_nat_numeric: "is_numeric_id (show_nat n)"
proof (cases "show_nat n")
  case Nil
  then show ?thesis by (simp add: show_nat_nonempty)
next
  case (Cons c cs)
  have "c = CHR ''0'' \<Longrightarrow> cs = []"
    using show_nat_hd [of n] Cons by simp
  with Cons show_nat_digits [of n] show ?thesis
    by (auto simp: is_numeric_id_def)
qed

subsection \<open>Parsing what format prints\<close>

lemma split_on_no_sep: "d \<notin> set xs \<Longrightarrow> split_on d xs = [xs]"
  by (induction xs) auto

lemma split_on_append: "d \<notin> set xs \<Longrightarrow> split_on d (xs @ d # ys) = xs # split_on d ys"
  by (induction xs) auto

lemma digits_exclude: "list_all isDigit s \<Longrightarrow> \<not> isDigit c \<Longrightarrow> c \<notin> set s"
  by (auto simp: list_all_iff)

lemma show_nat_no_dot: "CHR ''.'' \<notin> set (show_nat n)"
  by (rule digits_exclude [OF show_nat_digits]) (simp add: isDigit_def)

lemma trim_id:
  assumes "s \<noteq> []" and "\<not> isSpace (hd s)" and "\<not> isSpace (last s)"
  shows "trim s = s"
proof -
  from assms have "dropWhile isSpace s = s"
    by (cases s) auto
  moreover from assms have "dropWhile isSpace (rev s) = rev s"
    by (cases "rev s") (auto simp: hd_rev [symmetric] simp del: hd_rev)
  ultimately show ?thesis
    by (simp add: trim_def)
qed

lemma strip_v_id: "s \<noteq> [] \<Longrightarrow> hd s \<noteq> CHR ''v'' \<Longrightarrow> strip_v s = s"
  by (cases s) (auto simp: strip_v_def)

lemma dropWhile_all: "list_all P xs \<Longrightarrow> dropWhile P xs = []"
  by (simp add: list_all_iff)

lemma takeWhile_all: "list_all P xs \<Longrightarrow> takeWhile P xs = xs"
  by (simp add: list_all_iff)

lemma version_parts_plain: "list_all main_char m \<Longrightarrow> version_parts m = (m, None, None)"
  by (simp add: version_parts_def dropWhile_all)

lemma version_parts_pre:
  "list_all main_char m \<Longrightarrow> list_all pre_char p \<Longrightarrow>
   version_parts (m @ CHR ''-'' # p) = (m, Some p, None)"
proof -
  assume m: "list_all main_char m" and p: "list_all pre_char p"
  have d: "dropWhile main_char (m @ CHR ''-'' # p) = CHR ''-'' # p"
    using m by (simp add: list_all_iff main_char_def)
  have t: "takeWhile main_char (m @ CHR ''-'' # p) = m"
    using m by (simp add: list_all_iff main_char_def)
  show ?thesis
    by (simp add: version_parts_def d t dropWhile_all [OF p] takeWhile_all [OF p])
qed

lemma isDigit_main_char: "isDigit c \<Longrightarrow> main_char c"
  by (auto simp: isDigit_def main_char_def)

lemma isDigit_not_space: "isDigit c \<Longrightarrow> \<not> isSpace c"
  by (auto simp: isDigit_def isSpace_def)

lemma isDigit_pre_char: "isDigit c \<Longrightarrow> pre_char c"
  by (auto simp: isDigit_def pre_char_def)

lemma show_nat_main_char: "list_all main_char (show_nat n)"
  using show_nat_digits [of n] by (auto simp: list_all_iff isDigit_main_char)

lemma show_nat_pre_char: "list_all pre_char (show_nat n)"
  using show_nat_digits [of n] by (auto simp: list_all_iff isDigit_pre_char)

lemma show_nat_hd_digit: "isDigit (hd (show_nat n))"
  using show_nat_digits [of n] show_nat_nonempty [of n] by (cases "show_nat n") auto

lemma show_nat_last_digit: "isDigit (last (show_nat n))"
  using show_nat_digits [of n] show_nat_nonempty [of n]
  by (simp add: list_all_iff)

lemma length_show_nat_safe: "n \<le> MAX_SAFE_INTEGER \<Longrightarrow> length (show_nat n) \<le> 16"
  by (rule length_show_nat) (simp_all add: MAX_SAFE_INTEGER_def)

lemma main_text_props:
  "main_text a b c \<noteq> []" "isDigit (hd (main_text a b c))" "isDigit (last (main_text a b c))"
  "list_all main_char (main_text a b c)"
  using show_nat_nonempty show_nat_hd_digit show_nat_last_digit show_nat_main_char
  by (simp_all add: main_text_def main_char_def)

lemma main_text_length:
  "a \<le> MAX_SAFE_INTEGER \<Longrightarrow> b \<le> MAX_SAFE_INTEGER \<Longrightarrow> c \<le> MAX_SAFE_INTEGER \<Longrightarrow>
   length (main_text a b c) \<le> 50"
  using length_show_nat_safe [of a] length_show_nat_safe [of b] length_show_nat_safe [of c]
  by (simp add: main_text_def)

lemma parse_main_text:
  "a \<le> MAX_SAFE_INTEGER \<Longrightarrow> b \<le> MAX_SAFE_INTEGER \<Longrightarrow> c \<le> MAX_SAFE_INTEGER \<Longrightarrow>
   parse_main (main_text a b c) = Some (a, b, c)"
  by (simp add: parse_main_def main_text_def split_on_append split_on_no_sep show_nat_no_dot
      show_nat_numeric read_show_nat)


lemma SemVer_new_plain:
  assumes "a \<le> MAX_SAFE_INTEGER" "b \<le> MAX_SAFE_INTEGER" "c \<le> MAX_SAFE_INTEGER"
  shows "SemVer_new (main_text a b c)
           = Some \<lparr>major = a, minor = b, patch = c, prerelease = [], build = []\<rparr>"
proof -
  have len: "\<not> MAX_LENGTH < length (main_text a b c)"
    using main_text_length [of a b c] assms by (simp add: MAX_LENGTH_def)
  have tr: "trim (main_text a b c) = main_text a b c"
    by (rule trim_id) (simp_all add: main_text_props isDigit_not_space)
  have sv: "strip_v (main_text a b c) = main_text a b c"
    using main_text_props(2) [of a b c]
    by (intro strip_v_id main_text_props) (auto simp: isDigit_def)
  show ?thesis
    using assms
    by (simp add: SemVer_new_def len tr sv version_parts_plain main_text_props parse_main_text)
qed

lemma parse_prerelease_beta:
  "parse_prerelease (''beta.'' @ show_nat m) = Some [Str ''beta'', mk_ident (show_nat m)]"
proof -
  have "split_on CHR ''.'' (''beta'' @ CHR ''.'' # show_nat m) = [''beta'', show_nat m]"
    by (subst split_on_append) (simp_all add: split_on_no_sep show_nat_no_dot)
  then have sp: "split_on CHR ''.'' (''beta.'' @ show_nat m) = [''beta'', show_nat m]"
    by simp
  have b: "is_prerelease_id ''beta''"
    by (simp add: is_prerelease_id_def is_numeric_id_def isIdChar_def isDigit_def)
  have n: "is_prerelease_id (show_nat m)"
    by (simp add: is_prerelease_id_def show_nat_numeric)
  have mb: "mk_ident ''beta'' = Str ''beta''"
    by (simp add: mk_ident_def isDigit_def)
  show ?thesis
    unfolding parse_prerelease_def sp using b n mb by simp
qed

lemma SemVer_new_beta:
  assumes "a \<le> MAX_SAFE_INTEGER" "b \<le> MAX_SAFE_INTEGER" "c \<le> MAX_SAFE_INTEGER"
    and "m \<le> MAX_SAFE_INTEGER"
  shows "SemVer_new (main_text a b c @ ''-beta.'' @ show_nat m)
           = Some \<lparr>major = a, minor = b, patch = c,
                   prerelease = [Str ''beta'', mk_ident (show_nat m)], build = []\<rparr>"
proof -
  let ?t = "main_text a b c @ ''-beta.'' @ show_nat m"
  have len: "\<not> MAX_LENGTH < length ?t"
    using main_text_length [of a b c] length_show_nat_safe [of m] assms
    by (simp add: MAX_LENGTH_def)
  have hd_t: "hd ?t = hd (main_text a b c)"
    using main_text_props(1) [of a b c] by simp
  have last_t: "last ?t = last (show_nat m)"
    using show_nat_nonempty [of m] by simp
  have ne: "?t \<noteq> []"
    using main_text_props(1) [of a b c] by simp
  have digit_hd: "isDigit (hd ?t)"
    unfolding hd_t by (rule main_text_props)
  have digit_last: "isDigit (last ?t)"
    unfolding last_t by (rule show_nat_last_digit)
  have tr: "trim ?t = ?t"
    using ne isDigit_not_space [OF digit_hd] isDigit_not_space [OF digit_last]
    by (rule trim_id)
  have not_v: "hd ?t \<noteq> CHR ''v''"
    using digit_hd by (auto simp: isDigit_def)
  have sv: "strip_v ?t = ?t"
    using ne not_v by (rule strip_v_id)
  have pc: "list_all pre_char (''beta.'' @ show_nat m)"
    using show_nat_pre_char [of m] by (simp add: pre_char_def)
  have parts: "version_parts ?t = (main_text a b c, Some (''beta.'' @ show_nat m), None)"
    using version_parts_pre [OF main_text_props(4) pc, of a b c] by simp
  show ?thesis
    unfolding SemVer_new_def
    by (simp only: len if_False tr sv parts prod.case option.case
        parse_main_text [OF assms(1-3)] parse_prerelease_beta)
qed

subsection \<open>Candidates\<close>

lemma format_main_text:
  "format v = main_text (major v) (minor v) (patch v)
     @ (if prerelease v = [] then [] else ''-'' @ join ''.'' (map show_ident (prerelease v)))"
  by (simp add: format_def)

lemma show_mk_ident: "show_ident (mk_ident (show_nat m)) = show_nat m"
  by (simp add: mk_ident_def read_show_nat)

lemma mk_ident_numeric: "ident_numeric (mk_ident (show_nat m))"
  by (simp add: mk_ident_def show_nat_digits show_nat_nonempty)

lemma mk_ident_number: "m \<le> MAX_SAFE_INTEGER \<Longrightarrow> ident_number (mk_ident (show_nat m)) = m"
  by (simp add: mk_ident_def read_show_nat to_double_def MAX_SAFE_INTEGER_def)

lemma parsed_prerelease:
  "SemVer_new cur = Some v \<Longrightarrow> \<exists>ids. prerelease v = map mk_ident ids"
  by (auto simp: SemVer_new_def parse_prerelease_def
      split: if_splits option.splits prod.splits intro: exI [of _ "[]"])

lemma parsed_Num_bound:
  assumes "SemVer_new cur = Some v" and "Num n \<in> set (prerelease v)"
  shows "n < MAX_SAFE_INTEGER"
proof -
  from parsed_prerelease [OF assms(1)] obtain ids where "prerelease v = map mk_ident ids" ..
  with assms(2) obtain s where "mk_ident s = Num n" by auto
  then show ?thesis
    by (auto simp: mk_ident_def split: if_splits)
qed

text \<open>What \<open>inc\<close> makes of the prerelease part.\<close>

lemma inc_pre_empty:
  "prerelease u = [] \<Longrightarrow> inc_pre ''beta'' u = u\<lparr>prerelease := [Str ''beta'', Num 0]\<rparr>"
  by (simp add: inc_pre_def compareIdentifiers_def mk_ident_def isDigit_def)

lemma inc_pre_beta:
  "prerelease u = [Str ''beta'', Num n] \<Longrightarrow>
   inc_pre ''beta'' u = u\<lparr>prerelease := [Str ''beta'', Num (Suc n)]\<rparr>"
  by (simp add: inc_pre_def bump_last_def compareIdentifiers_def mk_ident_def isDigit_def)

text \<open>A prerelease part that starts below \<open>beta\<close> is replaced by \<open>beta.0\<close>.\<close>

lemma str_less_asym: "str_less a b \<Longrightarrow> \<not> str_less b a"
  by (induction a b rule: str_less.induct) (auto split: if_splits)

lemma str_less_irrefl: "\<not> str_less a a"
  by (induction a) auto

lemma below_beta_not_beta: "below_beta p \<Longrightarrow> p \<noteq> Str ''beta''"
  by (auto simp: below_beta_def isDigit_def)

lemma beta_above: "below_beta p \<Longrightarrow> compareIdentifiers (Str ''beta'') p = 1"
  by (auto simp: below_beta_def compareIdentifiers_def isDigit_def dest: str_less_asym)

lemma bump_first_similar:
  "bump_first xs = Some ys \<Longrightarrow> list_all2 (\<lambda>x y. y = x \<or> (\<exists>n. y = Num n)) xs ys"
proof (induction xs arbitrary: ys rule: bump_first.induct)
  case 1
  then show ?case by simp
next
  case (2 n xs)
  then show ?case by (auto simp: list_all2_same list.rel_refl)
next
  case (3 s xs)
  then show ?case by auto
qed

lemma bump_last_similar:
  "bump_last xs = Some ys \<Longrightarrow> list_all2 (\<lambda>x y. y = x \<or> (\<exists>n. y = Num n)) xs ys"
proof -
  assume "bump_last xs = Some ys"
  then obtain zs where z: "bump_first (rev xs) = Some zs" and ys: "ys = rev zs"
    by (auto simp: bump_last_def)
  from bump_first_similar [OF z]
  have "list_all2 (\<lambda>x y. y = x \<or> (\<exists>n. y = Num n)) (rev (rev xs)) (rev zs)"
    by (subst list_all2_rev) simp
  with ys show ?thesis by simp
qed

lemma not_beta_compare: "q \<noteq> Str ''beta'' \<Longrightarrow> compareIdentifiers q (mk_ident ''beta'') \<noteq> 0"
  by (auto simp: compareIdentifiers_def mk_ident_def isDigit_def)

lemma inc_pre_below:
  assumes pr: "prerelease u = p # ps" and below: "below_beta p"
  shows "inc_pre ''beta'' u = u\<lparr>prerelease := [Str ''beta'', Num 0]\<rparr>"
proof -
  define pr1 where "pr1 = (case bump_last (p # ps) of
                             Some pr' \<Rightarrow> pr' | None \<Rightarrow> (p # ps) @ [Num 0])"
  have "\<exists>q qs. pr1 = q # qs \<and> q \<noteq> Str ''beta''"
  proof (cases "bump_last (p # ps)")
    case None
    with below_beta_not_beta [OF below] show ?thesis
      by (simp add: pr1_def)
  next
    case (Some pr')
    from bump_last_similar [OF Some] obtain q qs where
      "pr' = q # qs" and "q = p \<or> (\<exists>n. q = Num n)"
      by (auto simp: list_all2_Cons1)
    with Some below_beta_not_beta [OF below] show ?thesis
      by (auto simp: pr1_def)
  qed
  then obtain q qs where q: "pr1 = q # qs" and nb: "q \<noteq> Str ''beta''"
    by blast
  have E: "(if prerelease u = [] then [Num 0]
            else (case bump_last (prerelease u) of
                    Some pr' \<Rightarrow> pr' | None \<Rightarrow> prerelease u @ [Num 0])) = q # qs"
    using q by (simp add: pr pr1_def split: option.splits)
  show ?thesis
    unfolding inc_pre_def Let_def E using not_beta_compare [OF nb] by simp
qed

text \<open>A candidate without prerelease part.\<close>

lemma plain_candidate:
  assumes cur: "SemVer_new cur = Some v"
    and bounds: "a \<le> MAX_SAFE_INTEGER" "b \<le> MAX_SAFE_INTEGER" "c \<le> MAX_SAFE_INTEGER"
    and above: "major v < a \<or> (major v = a \<and> minor v < b)
        \<or> (major v = a \<and> minor v = b \<and> patch v < c)
        \<or> (major v = a \<and> minor v = b \<and> patch v = c \<and> prerelease v \<noteq> [])"
  shows "valid (Some (main_text a b c)) = Some (main_text a b c)
       \<and> gt (main_text a b c) cur = Some True"
proof -
  let ?u = "\<lparr>major = a, minor = b, patch = c, prerelease = [], build = []\<rparr>"
  have parsed: "SemVer_new (main_text a b c) = Some ?u"
    using bounds by (rule SemVer_new_plain)
  have "0 < compare ?u v"
    using above by (auto simp: compare_def compareMain_def compareNum_def comparePre_def)
  with parsed cur show ?thesis
    by (simp add: valid_def gt_def format_main_text)
qed

text \<open>A candidate with prerelease part \<open>beta.m\<close>.\<close>

lemma beta_candidate:
  assumes cur: "SemVer_new cur = Some v"
    and bounds: "a \<le> MAX_SAFE_INTEGER" "b \<le> MAX_SAFE_INTEGER" "c \<le> MAX_SAFE_INTEGER"
      "m \<le> MAX_SAFE_INTEGER"
    and above: "major v < a \<or> (major v = a \<and> minor v < b)
        \<or> (major v = a \<and> minor v = b \<and> patch v < c)
        \<or> (major v = a \<and> minor v = b \<and> patch v = c
            \<and> ((\<exists>n. prerelease v = [Str ''beta'', Num n] \<and> n < m)
                \<or> (\<exists>p ps. prerelease v = p # ps \<and> below_beta p)))"
  shows "valid (Some (main_text a b c @ ''-beta.'' @ show_nat m))
           = Some (main_text a b c @ ''-beta.'' @ show_nat m)
       \<and> gt (main_text a b c @ ''-beta.'' @ show_nat m) cur = Some True"
proof -
  let ?u = "\<lparr>major = a, minor = b, patch = c,
             prerelease = [Str ''beta'', mk_ident (show_nat m)], build = []\<rparr>"
  have parsed: "SemVer_new (main_text a b c @ ''-beta.'' @ show_nat m) = Some ?u"
    using bounds by (rule SemVer_new_beta)
  have fmt: "format ?u = main_text a b c @ ''-beta.'' @ show_nat m"
    by (simp add: format_main_text show_mk_ident)
  have "0 < compare ?u v"
  proof -
    have pre: "0 < comparePre ?u v"
      if "prerelease v = [Str ''beta'', Num n]" and "n < m" for n
    proof -
      have "mk_ident (show_nat m) \<noteq> Num n"
        using that(2) by (auto simp: mk_ident_def read_show_nat split: if_splits)
      moreover have "compareIdentifiers (mk_ident (show_nat m)) (Num n) = 1"
        using that(2) bounds(4)
        by (simp add: compareIdentifiers_def mk_ident_numeric mk_ident_number)
      ultimately show ?thesis
        using that(1) by (simp add: comparePre_def)
    qed
    have pre': "0 < comparePre ?u v"
      if "prerelease v = p # ps" and "below_beta p" for p ps
      using that below_beta_not_beta [OF that(2)] beta_above [OF that(2)]
      by (auto simp: comparePre_def)
    from above show ?thesis
      by (auto simp: compare_def compareMain_def compareNum_def dest: pre pre')
  qed
  with parsed cur fmt show ?thesis
    by (simp add: valid_def gt_def)
qed

lemma plain_result:
  assumes "SemVer_new cur = Some v" and "prerelease u = []"
    and "major u \<le> MAX_SAFE_INTEGER" "minor u \<le> MAX_SAFE_INTEGER" "patch u \<le> MAX_SAFE_INTEGER"
    and "major v < major u \<or> (major v = major u \<and> minor v < minor u)
        \<or> (major v = major u \<and> minor v = minor u \<and> patch v < patch u)
        \<or> (major v = major u \<and> minor v = minor u \<and> patch v = patch u \<and> prerelease v \<noteq> [])"
  shows "valid (Some (format u)) = Some (format u) \<and> gt (format u) cur = Some True"
  using plain_candidate [OF assms(1) assms(3-6)] assms(2)
  by (simp add: format_main_text)

lemma beta_result:
  assumes "SemVer_new cur = Some v" and "prerelease u = [Str ''beta'', Num m]"
    and "major u \<le> MAX_SAFE_INTEGER" "minor u \<le> MAX_SAFE_INTEGER" "patch u \<le> MAX_SAFE_INTEGER"
      "m \<le> MAX_SAFE_INTEGER"
    and "major v < major u \<or> (major v = major u \<and> minor v < minor u)
        \<or> (major v = major u \<and> minor v = minor u \<and> patch v < patch u)
        \<or> (major v = major u \<and> minor v = minor u \<and> patch v = patch u
            \<and> ((\<exists>n. prerelease v = [Str ''beta'', Num n] \<and> n < m)
                \<or> (\<exists>p ps. prerelease v = p # ps \<and> below_beta p)))"
  shows "valid (Some (format u)) = Some (format u) \<and> gt (format u) cur = Some True"
  using beta_candidate [OF assms(1) assms(3-7)] assms(2)
  by (simp add: format_main_text)

text \<open>
  C8, as the code has it. For a current version that parses, with major, minor and patch
  below \<open>MAX_SAFE_INTEGER\<close>: the candidate of each of the six kinds patch, minor,
  major, prepatch, preminor and premajor, and the candidate of prerelease when the
  current version has no prerelease part, has the prerelease part \<open>beta.n\<close>, or has a
  prerelease part whose first identifier is below \<open>beta\<close>, is a valid version string
  and is greater than the current version.
\<close>

theorem inc_valid_and_greater:
  assumes cur: "SemVer_new (currentVersion cfg) = Some v"
    and safe: "major v < MAX_SAFE_INTEGER" "minor v < MAX_SAFE_INTEGER"
      "patch v < MAX_SAFE_INTEGER"
    and shape: "k \<noteq> Prerelease \<or> prerelease v = []
      \<or> (\<exists>n. prerelease v = [Str ''beta'', Num n])
      \<or> (\<exists>p ps. prerelease v = p # ps \<and> below_beta p)"
  shows "\<exists>s. inc cfg k = Some s \<and> valid (Some s) = Some s
             \<and> gt s (currentVersion cfg) = Some True"
proof -
  define u where "u = SemVer_inc v k ''beta''"
  have result: "inc cfg k = Some (format u)"
    by (simp add: inc_def semver_inc_def cur u_def)
  have "valid (Some (format u)) = Some (format u)
      \<and> gt (format u) (currentVersion cfg) = Some True"
  proof (cases k)
    case Patch
    with safe show ?thesis
      by (intro plain_result [OF cur]) (auto simp: u_def inc_patch_def)
  next
    case Minor
    with safe show ?thesis
      by (intro plain_result [OF cur]) (auto simp: u_def inc_minor_def)
  next
    case Major
    with safe show ?thesis
      by (intro plain_result [OF cur]) (auto simp: u_def inc_major_def)
  next
    case Prepatch
    with safe show ?thesis
      by (intro beta_result [OF cur, where m = 0])
        (auto simp: u_def inc_patch_def inc_pre_empty)
  next
    case Preminor
    with safe show ?thesis
      by (intro beta_result [OF cur, where m = 0]) (auto simp: u_def inc_pre_empty)
  next
    case Premajor
    with safe show ?thesis
      by (intro beta_result [OF cur, where m = 0]) (auto simp: u_def inc_pre_empty)
  next
    case Prerelease
    show ?thesis
    proof (cases "prerelease v = []")
      case True
      with Prerelease safe show ?thesis
        by (intro beta_result [OF cur, where m = 0])
          (auto simp: u_def inc_patch_def inc_pre_empty)
    next
      case False
      with Prerelease shape consider
        (beta) n where "prerelease v = [Str ''beta'', Num n]"
        | (below) p ps where "prerelease v = p # ps" "below_beta p"
        by blast
      then show ?thesis
      proof cases
        case beta
        then have "n < MAX_SAFE_INTEGER"
          using parsed_Num_bound [OF cur, of n] by simp
        with Prerelease safe beta show ?thesis
          by (intro beta_result [OF cur, where m = "Suc n"])
            (auto simp: u_def inc_pre_beta)
      next
        case below
        with Prerelease safe show ?thesis
          by (intro beta_result [OF cur, where m = 0])
            (auto simp: u_def inc_pre_below)
      qed
    qed
  qed
  with result show ?thesis by blast
qed

theorem inc_valid_and_greater_witness:
  "inc (sample_cfg\<lparr>currentVersion := ''1.2.3-beta.4''\<rparr>) Prerelease = Some ''1.2.3-beta.5''
   \<and> valid (Some ''1.2.3-beta.5'') = Some ''1.2.3-beta.5''
   \<and> gt ''1.2.3-beta.5'' ''1.2.3-beta.4'' = Some True"
proof -
  have cur: "SemVer_new (currentVersion (sample_cfg\<lparr>currentVersion := ''1.2.3-beta.4''\<rparr>))
      = Some \<lparr>major = 1, minor = 2, patch = 3, prerelease = [Str ''beta'', Num 4], build = []\<rparr>"
    by (simp add: semver_eval split_on.simps)
  have candidate: "inc (sample_cfg\<lparr>currentVersion := ''1.2.3-beta.4''\<rparr>) Prerelease
      = Some ''1.2.3-beta.5''"
    by (simp add: inc_def semver_eval)
  from inc_valid_and_greater [OF cur, of Prerelease] candidate
  show ?thesis
    by (simp add: MAX_SAFE_INTEGER_def)
qed

text \<open>
  C8 as stated fails. From 1.2.3-rc.1 the prerelease candidate is 1.2.3-beta.0, which is
  lower: a prerelease part that does not start with \<open>beta\<close> is replaced by \<open>beta.0\<close>.
\<close>

theorem inc_prerelease_counterexample:
  "\<not> (\<forall>cfg k v. SemVer_new (currentVersion cfg) = Some v \<longrightarrow>
         (\<exists>s. inc cfg k = Some s \<and> valid (Some s) = Some s
             \<and> gt s (currentVersion cfg) = Some True))"
proof
  assume claim: "\<forall>cfg k v. SemVer_new (currentVersion cfg) = Some v \<longrightarrow>
         (\<exists>s. inc cfg k = Some s \<and> valid (Some s) = Some s
             \<and> gt s (currentVersion cfg) = Some True)"
  have cur: "SemVer_new (currentVersion (sample_cfg\<lparr>currentVersion := ''1.2.3-rc.1''\<rparr>))
      = Some \<lparr>major = 1, minor = 2, patch = 3, prerelease = [Str ''rc'', Num 1], build = []\<rparr>"
    by (simp add: semver_eval)
  have candidate: "inc (sample_cfg\<lparr>currentVersion := ''1.2.3-rc.1''\<rparr>) Prerelease
      = Some ''1.2.3-beta.0''"
    by (simp add: inc_def semver_eval)
  have lower: "gt ''1.2.3-beta.0'' ''1.2.3-rc.1'' = Some False"
    by (simp add: gt_def compare_def compareMain_def compareNum_def comparePre_def
        semver_eval)
  from claim cur candidate
  have "gt ''1.2.3-beta.0'' (currentVersion (sample_cfg\<lparr>currentVersion := ''1.2.3-rc.1''\<rparr>))
      = Some True"
    by (metis option.inject)
  with lower show False by simp
qed

text \<open>The bound on the components is needed as well: incrementing \<open>MAX_SAFE_INTEGER\<close>
  gives a string that \<open>valid\<close> rejects.\<close>

lemma inc_beyond_safe_integer:
  "inc (sample_cfg\<lparr>currentVersion := ''9007199254740991.0.0''\<rparr>) Major
     = Some ''9007199254740992.0.0''
   \<and> valid (Some ''9007199254740992.0.0'') = None"
  by (simp add: inc_def semver_eval)

section \<open>Choosing the target version\<close>

lemma emits_np_runIfNotDry: "emits (\<lambda>ev. \<not> is_prompt ev) (runIfNotDry cfg exec bin args opts)"
  by (simp add: runIfNotDry_def dryRun_def emits_emit emits_bind emits_run emits_return)

lemma emits_np_publishPackage: "emits (\<lambda>ev. \<not> is_prompt ev) (publishPackage cfg exec version)"
proof (cases "isDryRun cfg")
  case True
  then show ?thesis
    by (simp add: emits_def publishPackage_dry)
next
  case False
  then show ?thesis
    by (simp add: emits_def publishPackage_real publish_catch_unfold
        split: sum.splits option.splits)
qed

lemma emits_np_updateVersion: "emits (\<lambda>ev. \<not> is_prompt ev) (updateVersion JSON_parse version)"
  by (auto simp: emits_def updateVersion_def split: sum.splits)

lemma emits_np_release_steps:
  "emits (\<lambda>ev. \<not> is_prompt ev) (release_steps cfg exec JSON_parse targetVersion)"
  unfolding release_steps_def build_step_def commit_step_def push_step_def step_def
  by (intro emits_bind emits_emit emits_run emits_np_publishPackage emits_np_runIfNotDry
      emits_np_updateVersion)
    (auto intro!: emits_bind emits_emit emits_run emits_return emits_np_runIfNotDry)

text \<open>
  C3, as the code has it. With current version 1.2.3 and no version on the command line:
  picking \<open>patch\<close> resolves to 1.2.4, which does not contain \<open>beta\<close>, and the operator
  is not asked about the beta tag anywhere in the run; picking \<open>prepatch\<close> resolves to
  1.2.4-beta.0, which contains \<open>beta\<close>, and unless a tag was given the operator is
  asked about the beta tag right after the selection.
\<close>

theorem patch_and_prepatch_targets:
  assumes cur: "currentVersion cfg = ''1.2.3''" and no_arg: "\<not> truthy (args_target cfg)"
  shows "(ans_release op = Choose Patch \<longrightarrow>
            inc cfg Patch = Some ''1.2.4''
            \<and> fst (askTargetVersion cfg op w) = Inr (Some ''1.2.4'')
            \<and> \<not> str_includes ''1.2.4'' ''beta''
            \<and> (\<exists>evs. trace (snd (main cfg op exec JSON_parse w)) = trace w @ evs
                  \<and> PromptConfirm beta_question \<notin> set evs))
       \<and> (ans_release op = Choose Prepatch \<longrightarrow>
            inc cfg Prepatch = Some ''1.2.4-beta.0''
            \<and> fst (askTargetVersion cfg op w) = Inr (Some ''1.2.4-beta.0'')
            \<and> str_includes ''1.2.4-beta.0'' ''beta''
            \<and> (\<not> truthy (args_tag w) \<longrightarrow>
                 (\<exists>evs. trace (snd (main cfg op exec JSON_parse w))
                    = trace w @ [PromptSelect ''Select release type'' (choices cfg),
                                 PromptConfirm beta_question,
                                 PromptConfirm (confirm_message cfg ''1.2.4-beta.0'')] @ evs)))"
proof (intro conjI impI)
  show "inc cfg Patch = Some ''1.2.4''"
    by (simp add: inc_def cur semver_eval)
  show "inc cfg Prepatch = Some ''1.2.4-beta.0''"
    by (simp add: inc_def cur semver_eval)
  show "\<not> str_includes ''1.2.4'' ''beta''"
    by simp
  show "str_includes ''1.2.4-beta.0'' ''beta''"
    by simp
next
  assume pick: "ans_release op = Choose Patch"
  have target: "askTargetVersion cfg op w
      = (Inr (Some ''1.2.4''),
         w\<lparr>trace := trace w @ [PromptSelect ''Select release type'' (choices cfg)]\<rparr>)"
    using pick cur no_arg by (rule sample_target)
  then show "fst (askTargetVersion cfg op w) = Inr (Some ''1.2.4'')"
    by simp
  have ok: "valid (Some ''1.2.4'') = Some ''1.2.4''"
    by (simp add: semver_eval)
  define w1 where "w1 = w\<lparr>trace := trace w @ [PromptSelect ''Select release type'' (choices cfg),
      PromptConfirm (confirm_message cfg ''1.2.4'')]\<rparr>"
  have run: "main cfg op exec JSON_parse w
      = (if \<not> truthy_bool (ans_yes op) then (Inr (), w1)
         else release_steps cfg exec JSON_parse ''1.2.4'' w1)"
    by (simp add: main_def bind_def target ok askBetaTag_def emit_def return_def w1_def)
  from emits_np_release_steps [of cfg exec JSON_parse "''1.2.4''"]
  obtain evs where evs: "trace (snd (release_steps cfg exec JSON_parse ''1.2.4'' w1))
      = trace w1 @ evs" and np: "list_all (\<lambda>ev. \<not> is_prompt ev) evs"
    unfolding emits_def by blast
  have no_beta: "PromptConfirm beta_question \<notin> set evs"
    using np by (auto simp: list_all_iff)
  have differs: "PromptConfirm beta_question \<noteq> PromptConfirm (confirm_message cfg ''1.2.4'')"
    by (simp add: beta_question_def confirm_message_def)
  show "\<exists>evs. trace (snd (main cfg op exec JSON_parse w)) = trace w @ evs
                  \<and> PromptConfirm beta_question \<notin> set evs"
  proof (cases "truthy_bool (ans_yes op)")
    case True
    with run evs no_beta differs show ?thesis
      by (intro exI [of _ "[PromptSelect ''Select release type'' (choices cfg),
            PromptConfirm (confirm_message cfg ''1.2.4'')] @ evs"])
        (simp add: w1_def)
  next
    case False
    with run differs show ?thesis
      by (intro exI [of _ "[PromptSelect ''Select release type'' (choices cfg),
            PromptConfirm (confirm_message cfg ''1.2.4'')]"])
        (simp add: w1_def)
  qed
next
  assume pick: "ans_release op = Choose Prepatch"
  have target: "askTargetVersion cfg op w
      = (Inr (Some ''1.2.4-beta.0''),
         w\<lparr>trace := trace w @ [PromptSelect ''Select release type'' (choices cfg)]\<rparr>)"
    using pick cur no_arg
    by (simp add: askTargetVersion_def choice_title_def inc_def io_eval line_end_def semver_eval)
  then show "fst (askTargetVersion cfg op w) = Inr (Some ''1.2.4-beta.0'')"
    by simp
  assume no_tag: "\<not> truthy (args_tag w)"
  have ok: "valid (Some ''1.2.4-beta.0'') = Some ''1.2.4-beta.0''"
    by (simp add: semver_eval)
  define w1 where "w1 = w\<lparr>args_tag := (if truthy_bool (ans_tagBeta op) then Some ''beta''
                                    else args_tag w),
      trace := trace w @ [PromptSelect ''Select release type'' (choices cfg),
      PromptConfirm beta_question, PromptConfirm (confirm_message cfg ''1.2.4-beta.0'')]\<rparr>"
  have run: "main cfg op exec JSON_parse w
      = (if \<not> truthy_bool (ans_yes op) then (Inr (), w1)
         else release_steps cfg exec JSON_parse ''1.2.4-beta.0'' w1)"
    using no_tag
    by (simp add: main_def bind_def target ok askBetaTag_def emit_def return_def w1_def
        beta_question_def)
  from emits_np_release_steps [of cfg exec JSON_parse "''1.2.4-beta.0''"]
  obtain evs where evs: "trace (snd (release_steps cfg exec JSON_parse ''1.2.4-beta.0'' w1))
      = trace w1 @ evs"
    unfolding emits_def by blast
  show "\<exists>evs. trace (snd (main cfg op exec JSON_parse w))
                    = trace w @ [PromptSelect ''Select release type'' (choices cfg),
                                 PromptConfirm beta_question,
                                 PromptConfirm (confirm_message cfg ''1.2.4-beta.0'')] @ evs"
  proof (cases "truthy_bool (ans_yes op)")
    case True
    with run evs show ?thesis
      by (intro exI [of _ evs]) (simp add: w1_def)
  next
    case False
    with run show ?thesis
      by (intro exI [of _ "[]"]) (simp add: w1_def)
  qed
qed


theorem patch_and_prepatch_targets_witness:
  "inc sample_cfg Patch = Some ''1.2.4''
   \<and> fst (askTargetVersion sample_cfg sample_op sample_world) = Inr (Some ''1.2.4'')
   \<and> inc sample_cfg Prepatch = Some ''1.2.4-beta.0''
   \<and> take 3 (trace (snd (main sample_cfg (sample_op\<lparr>ans_release := Choose Prepatch\<rparr>)
                            exec_ok sample_parse sample_world)))
       = [PromptSelect ''Select release type'' (choices sample_cfg),
          PromptConfirm beta_question,
          PromptConfirm ''Releasing false. Confirm?'']"
proof -
  have cur: "currentVersion sample_cfg = ''1.2.3''"
    by (simp add: sample_cfg_def)
  have no_arg: "\<not> truthy (args_target sample_cfg)"
    by (simp add: sample_cfg_def)
  have patch: "ans_release sample_op = Choose Patch"
    by (simp add: sample_op_def)
  have prepatch: "ans_release (sample_op\<lparr>ans_release := Choose Prepatch\<rparr>) = Choose Prepatch"
    by simp
  have no_tag: "\<not> truthy (args_tag sample_world)"
    by (simp add: sample_world_def)
  from patch_and_prepatch_targets [OF cur no_arg, of sample_op sample_world exec_ok sample_parse]
    patch
  have first: "inc sample_cfg Patch = Some ''1.2.4''
      \<and> fst (askTargetVersion sample_cfg sample_op sample_world) = Inr (Some ''1.2.4'')"
    by simp
  from patch_and_prepatch_targets [OF cur no_arg,
      of "sample_op\<lparr>ans_release := Choose Prepatch\<rparr>" sample_world exec_ok sample_parse]
    prepatch no_tag
  have second: "inc sample_cfg Prepatch = Some ''1.2.4-beta.0''
      \<and> (\<exists>evs. trace (snd (main sample_cfg (sample_op\<lparr>ans_release := Choose Prepatch\<rparr>)
                            exec_ok sample_parse sample_world))
            = trace sample_world @ [PromptSelect ''Select release type'' (choices sample_cfg),
                 PromptConfirm beta_question,
                 PromptConfirm (confirm_message sample_cfg ''1.2.4-beta.0'')] @ evs)"
    by simp
  then obtain evs where
    "trace (snd (main sample_cfg (sample_op\<lparr>ans_release := Choose Prepatch\<rparr>)
                            exec_ok sample_parse sample_world))
       = [PromptSelect ''Select release type'' (choices sample_cfg),
          PromptConfirm beta_question,
          PromptConfirm ''Releasing false. Confirm?''] @ evs"
    by (auto simp: sample_world_def confirm_message_def tag_def)
  with first second show ?thesis
    by simp
qed

text \<open>
  C3 as stated fails: the candidate for \<open>patch\<close> from 1.2.3 is 1.2.4, not
  1.2.4-beta.0; the prerelease identifier only enters the \<open>pre\<close> kinds.
\<close>

theorem patch_target_counterexample:
  "\<not> (\<forall>cfg op exec JSON_parse w.
        currentVersion cfg = ''1.2.3'' \<and> \<not> truthy (args_target cfg)
        \<and> ans_release op = Choose Patch \<longrightarrow>
          fst (askTargetVersion cfg op w) = Inr (Some ''1.2.4-beta.0'')
          \<and> PromptConfirm beta_question
               \<in> set (trace (snd (main cfg op exec JSON_parse w))))"
proof
  assume claim: "\<forall>cfg op exec JSON_parse w.
        currentVersion cfg = ''1.2.3'' \<and> \<not> truthy (args_target cfg)
        \<and> ans_release op = Choose Patch \<longrightarrow>
          fst (askTargetVersion cfg op w) = Inr (Some ''1.2.4-beta.0'')
          \<and> PromptConfirm beta_question
               \<in> set (trace (snd (main cfg op exec JSON_parse w)))"
  have pre: "currentVersion sample_cfg = ''1.2.3'' \<and> \<not> truthy (args_target sample_cfg)
      \<and> ans_release sample_op = Choose Patch"
    by (simp add: sample_cfg_def sample_op_def)
  from claim pre
  have "fst (askTargetVersion sample_cfg sample_op sample_world) = Inr (Some ''1.2.4-beta.0'')"
    by blast
  moreover have "fst (askTargetVersion sample_cfg sample_op sample_world) = Inr (Some ''1.2.4'')"
    by (subst sample_target) (simp_all add: sample_cfg_def sample_op_def)
  ultimately show False by simp
qed

end
